theory Spec2Isabelle
  imports Complex_Main "HOL-Library.Log_Nat"
begin

section \<open>Bank Account Simulator: the account core of \<^verbatim>\<open>src/bank_account.py\<close>\<close>

text \<open>
  The core has two halves: the class \<^verbatim>\<open>BankAccount\<close>, which keeps a balance, an
  overdraft limit and a list of transaction dictionaries, and the module-level functions
  \<^verbatim>\<open>deposit\<close>, \<^verbatim>\<open>withdraw\<close> and \<^verbatim>\<open>get_balance\<close>, which take the balance as an
  argument.

  Every amount is annotated \<^verbatim>\<open>float\<close>, and both shells pass the result of
  \<^verbatim>\<open>float(...)\<close>. So the amounts here are Python floats, IEEE 754 binary64 values, with
  their rounding, their infinities and NaN. \<^verbatim>\<open>datetime.now()\<close> is the only input the
  core reads from its environment; it is an explicit argument \<open>now\<close> of every operation
  that records a transaction.
\<close>

subsection \<open>Python floats\<close>

text \<open>
  A finite double is carried by the rational number it denotes. The two zeros are one
  value: they compare equal, and the core neither divides nor formats a number. The
  integer literal \<^verbatim>\<open>0\<close> of the source compares and adds as the double zero.
\<close>

datatype double = Finite rat | PInf | NInf | NaN

text \<open>\<open>ilog2 q\<close> is the exponent of a positive \<open>q\<close>: \<open>2 powi ilog2 q \<le> q < 2 powi (ilog2 q + 1)\<close>.\<close>

definition ilog2 :: "rat \<Rightarrow> int" where
  "ilog2 q =
     (let (a, b) = quotient_of q; e0 = bitlen a - bitlen b
      in if 2 powi e0 \<le> q then e0 else e0 - 1)"

text \<open>
  The spacing of the doubles around \<open>q\<close>: 52 fraction bits below the exponent, and the
  fixed spacing \<open>2 powi - 1074\<close> of the subnormal numbers below \<open>2 powi - 1022\<close>.
\<close>

definition quantum :: "rat \<Rightarrow> rat" where
  "quantum q = 2 powi (max (ilog2 \<bar>q\<bar>) (- 1022) - 52)"

definition round_half_even :: "rat \<Rightarrow> int" where
  "round_half_even x =
     (let f = \<lfloor>x\<rfloor>; d = x - of_int f
      in if d < 1 / 2 then f else if 1 / 2 < d then f + 1
         else if even f then f else f + 1)"

text \<open>Rounding to the nearest multiple of the spacing, ties to the even multiple.\<close>

definition round_rat :: "rat \<Rightarrow> rat" where
  "round_rat q =
     (if q = 0 then 0
      else sgn q * (of_int (round_half_even (\<bar>q\<bar> / quantum q)) * quantum q))"

text \<open>
  The double that an exact result is rounded to; a result that rounds to \<open>2 ^ 1024\<close>
  or beyond overflows to an infinity. This is also the value of a decimal literal.
\<close>

definition round64 :: "rat \<Rightarrow> double" where
  "round64 q =
     (let r = round_rat q
      in if 2 ^ 1024 \<le> r then PInf else if r \<le> - (2 ^ 1024) then NInf else Finite r)"

text \<open>A value of the model is a double when rounding leaves it as it is.\<close>

definition is_double :: "double \<Rightarrow> bool" where
  "is_double x = (case x of Finite q \<Rightarrow> round64 q = Finite q | _ \<Rightarrow> True)"

definition is_finite :: "double \<Rightarrow> bool" where
  "is_finite x = (case x of Finite q \<Rightarrow> True | _ \<Rightarrow> False)"

text \<open>Unary minus, \<^verbatim>\<open>+\<close>, \<^verbatim>\<open>-\<close>, \<^verbatim>\<open><\<close> and \<^verbatim>\<open><=\<close> on floats.\<close>

fun fneg :: "double \<Rightarrow> double" where
  "fneg (Finite q) = Finite (- q)"
| "fneg PInf = NInf"
| "fneg NInf = PInf"
| "fneg NaN = NaN"

fun fadd :: "double \<Rightarrow> double \<Rightarrow> double" where
  "fadd NaN y = NaN"
| "fadd x NaN = NaN"
| "fadd PInf NInf = NaN"
| "fadd NInf PInf = NaN"
| "fadd PInf y = PInf"
| "fadd x PInf = PInf"
| "fadd NInf y = NInf"
| "fadd x NInf = NInf"
| "fadd (Finite a) (Finite b) = round64 (a + b)"

definition fsub :: "double \<Rightarrow> double \<Rightarrow> double" where
  "fsub x y = fadd x (fneg y)"

fun flt :: "double \<Rightarrow> double \<Rightarrow> bool" where
  "flt NaN y = False"
| "flt x NaN = False"
| "flt (Finite a) (Finite b) = (a < b)"
| "flt x NInf = False"
| "flt PInf y = False"
| "flt NInf y = True"
| "flt x PInf = True"

fun fle :: "double \<Rightarrow> double \<Rightarrow> bool" where
  "fle NaN y = False"
| "fle x NaN = False"
| "fle (Finite a) (Finite b) = (a \<le> b)"
| "fle NInf y = True"
| "fle x PInf = True"
| "fle x NInf = False"
| "fle PInf y = False"

text \<open>
  The builtin \<^verbatim>\<open>max(a, b)\<close> of two arguments: it keeps \<^verbatim>\<open>a\<close> unless \<^verbatim>\<open>b > a\<close>, so
  \<^verbatim>\<open>max(0, nan)\<close> is 0.
\<close>

definition py_max :: "double \<Rightarrow> double \<Rightarrow> double" where
  "py_max a b = (if flt a b then b else a)"

subsection \<open>Errors\<close>

text \<open>
  Every failure of the core is a \<^verbatim>\<open>raise ValueError(message)\<close>. There are four raise
  sites, told apart by their message; the last one formats the limit into its message.
\<close>

datatype ValueError =
    Initial_balance_cannot_be_negative
  | Deposit_amount_must_be_positive
  | Withdrawal_amount_must_be_positive
  | Withdrawal_would_exceed_overdraft_limit_of double

text \<open>
  The two error kinds of the specification, and the kind of each raise site: a
  non-positive amount or a negative initial balance is an invalid argument, the
  overdraft message is an exceeded overdraft.
\<close>

datatype error_kind = InvalidArgument | OverdraftExceeded

fun kind :: "ValueError \<Rightarrow> error_kind" where
  "kind Initial_balance_cannot_be_negative = InvalidArgument"
| "kind Deposit_amount_must_be_positive = InvalidArgument"
| "kind Withdrawal_amount_must_be_positive = InvalidArgument"
| "kind (Withdrawal_would_exceed_overdraft_limit_of l) = OverdraftExceeded"

subsection \<open>The module-level functions\<close>

text \<open>
  \<^verbatim>\<open>def deposit(balance, amount)\<close>, \<^verbatim>\<open>def withdraw(balance, amount, overdraft_limit=0)\<close>
  and \<^verbatim>\<open>def get_balance(balance)\<close>. A raise is the left injection.
\<close>

definition deposit :: "double \<Rightarrow> double \<Rightarrow> ValueError + double" where
  "deposit balance amount =
     (if fle amount (Finite 0) then Inl Deposit_amount_must_be_positive
      else Inr (fadd balance amount))"

definition withdraw :: "double \<Rightarrow> double \<Rightarrow> double \<Rightarrow> ValueError + double" where
  "withdraw balance amount overdraft_limit =
     (if fle amount (Finite 0) then Inl Withdrawal_amount_must_be_positive
      else let new_balance = fsub balance amount in
        if flt new_balance (fneg overdraft_limit)
        then Inl (Withdrawal_would_exceed_overdraft_limit_of overdraft_limit)
        else Inr new_balance)"

definition get_balance :: "double \<Rightarrow> double" where
  "get_balance balance = balance"

subsection \<open>The class \<^verbatim>\<open>BankAccount\<close>\<close>

type_synonym datetime = nat

text \<open>
  A transaction is the dictionary built by \<^verbatim>\<open>_record_transaction\<close>, with the keys
  \<^verbatim>\<open>"type"\<close>, \<^verbatim>\<open>"amount"\<close>, \<^verbatim>\<open>"timestamp"\<close> and \<^verbatim>\<open>"resulting_balance"\<close>.
\<close>

record transaction =
  txn_type :: string
  amount :: double
  timestamp :: datetime
  resulting_balance :: double

text \<open>
  The three attributes \<^verbatim>\<open>_balance\<close>, \<^verbatim>\<open>_transaction_history\<close> and
  \<^verbatim>\<open>_overdraft_limit\<close>. The methods only ever append to the history and never change a
  dictionary already in it, so in this part the history is the list of its entries' values;
  the sharing of the dictionaries with a caller is modelled separately, further down.
\<close>

record BankAccount =
  balance :: double
  transaction_history :: "transaction list"
  overdraft_limit :: double

definition record_transaction :: "BankAccount \<Rightarrow> string \<Rightarrow> double \<Rightarrow> datetime \<Rightarrow> BankAccount" where
  "record_transaction self transaction_type amt now =
     self\<lparr>transaction_history := transaction_history self @
       [\<lparr>txn_type = transaction_type, amount = amt, timestamp = now,
         resulting_balance = balance self\<rparr>]\<rparr>"

text \<open>
  \<^verbatim>\<open>__init__(self, initial_balance=0, overdraft_limit=0)\<close>: the raise comes before any
  attribute is set, so a failed construction yields no account.
\<close>

definition BankAccount_init :: "double \<Rightarrow> double \<Rightarrow> datetime \<Rightarrow> ValueError + BankAccount" where
  "BankAccount_init initial_balance limit now =
     (if flt initial_balance (Finite 0) then Inl Initial_balance_cannot_be_negative
      else let self = \<lparr>balance = initial_balance, transaction_history = [],
                        overdraft_limit = py_max (Finite 0) limit\<rparr>
        in Inr (if flt (Finite 0) initial_balance
                then record_transaction self ''initial deposit'' initial_balance now
                else self))"

text \<open>
  A method returns its outcome (the raised error or the returned balance) together with
  the account as the call leaves it. Both raises of a method come before its first
  assignment, so the account after a raise is the account before the call.
\<close>

definition BankAccount_deposit ::
  "BankAccount \<Rightarrow> double \<Rightarrow> datetime \<Rightarrow> (ValueError + double) \<times> BankAccount" where
  "BankAccount_deposit self amt now =
     (if fle amt (Finite 0) then (Inl Deposit_amount_must_be_positive, self)
      else let self1 = self\<lparr>balance := fadd (balance self) amt\<rparr>;
               self2 = record_transaction self1 ''deposit'' amt now
        in (Inr (balance self2), self2))"

definition BankAccount_withdraw ::
  "BankAccount \<Rightarrow> double \<Rightarrow> datetime \<Rightarrow> (ValueError + double) \<times> BankAccount" where
  "BankAccount_withdraw self amt now =
     (if fle amt (Finite 0) then (Inl Withdrawal_amount_must_be_positive, self)
      else if flt (fsub (balance self) amt) (fneg (overdraft_limit self))
      then (Inl (Withdrawal_would_exceed_overdraft_limit_of (overdraft_limit self)), self)
      else let self1 = self\<lparr>balance := fsub (balance self) amt\<rparr>;
               self2 = record_transaction self1 ''withdrawal'' amt now
        in (Inr (balance self2), self2))"

definition BankAccount_get_balance :: "BankAccount \<Rightarrow> double" where
  "BankAccount_get_balance self = balance self"

definition transaction_count :: "BankAccount \<Rightarrow> nat" where
  "transaction_count self = length (transaction_history self)"

subsection \<open>Objects and references: the history as Python holds it\<close>

text \<open>
  \<^verbatim>\<open>get_transaction_history\<close> returns \<^verbatim>\<open>self._transaction_history.copy()\<close>, a new list
  object holding the same references to the same dictionary objects. What a caller can do
  to the account through the returned value depends on this sharing, so here the list and
  the dictionaries are objects in a heap. A reference is an index into the heap, and a new
  object goes to the end of it.
\<close>

datatype pyobj = Dict transaction | PyList "nat list"

type_synonym heap = "pyobj list"

definition alloc :: "heap \<Rightarrow> pyobj \<Rightarrow> nat \<times> heap" where
  "alloc h obj = (length h, h @ [obj])"

definition list_at :: "heap \<Rightarrow> nat \<Rightarrow> nat list option" where
  "list_at h r =
     (if r < length h then (case h ! r of PyList ds \<Rightarrow> Some ds | Dict t \<Rightarrow> None) else None)"

definition dict_at :: "heap \<Rightarrow> nat \<Rightarrow> transaction option" where
  "dict_at h r =
     (if r < length h then (case h ! r of Dict t \<Rightarrow> Some t | PyList ds \<Rightarrow> None) else None)"

text \<open>
  \<^verbatim>\<open>lst.append(d)\<close> and \<^verbatim>\<open>lst.copy()\<close>. The account's attribute refers to a list
  object from the constructor on, so the branch for a reference that is not a list is
  never taken by the methods below.
\<close>

definition list_append :: "heap \<Rightarrow> nat \<Rightarrow> nat \<Rightarrow> heap" where
  "list_append h r d =
     (case list_at h r of Some ds \<Rightarrow> h[r := PyList (ds @ [d])] | None \<Rightarrow> h)"

definition list_copy :: "heap \<Rightarrow> nat \<Rightarrow> nat \<times> heap" where
  "list_copy h r = alloc h (PyList (case list_at h r of Some ds \<Rightarrow> ds | None \<Rightarrow> []))"

text \<open>The account object: its history attribute is a reference to a list object.\<close>

record BankAccount_object =
  balance_attr :: double
  transaction_history_attr :: nat
  overdraft_limit_attr :: double

definition heap_record_transaction ::
  "heap \<Rightarrow> BankAccount_object \<Rightarrow> string \<Rightarrow> double \<Rightarrow> datetime \<Rightarrow> heap" where
  "heap_record_transaction h self transaction_type amt now =
     (let (d, h1) = alloc h (Dict \<lparr>txn_type = transaction_type, amount = amt,
                                  timestamp = now, resulting_balance = balance_attr self\<rparr>)
      in list_append h1 (transaction_history_attr self) d)"

definition heap_init ::
  "heap \<Rightarrow> double \<Rightarrow> double \<Rightarrow> datetime \<Rightarrow> (ValueError + BankAccount_object) \<times> heap" where
  "heap_init h initial_balance limit now =
     (if flt initial_balance (Finite 0) then (Inl Initial_balance_cannot_be_negative, h)
      else let (r, h1) = alloc h (PyList []);
               self = \<lparr>balance_attr = initial_balance, transaction_history_attr = r,
                       overdraft_limit_attr = py_max (Finite 0) limit\<rparr>
        in (Inr self,
            if flt (Finite 0) initial_balance
            then heap_record_transaction h1 self ''initial deposit'' initial_balance now
            else h1))"

definition heap_deposit ::
  "heap \<Rightarrow> BankAccount_object \<Rightarrow> double \<Rightarrow> datetime
     \<Rightarrow> (ValueError + double) \<times> BankAccount_object \<times> heap" where
  "heap_deposit h self amt now =
     (if fle amt (Finite 0) then (Inl Deposit_amount_must_be_positive, self, h)
      else let self1 = self\<lparr>balance_attr := fadd (balance_attr self) amt\<rparr>;
               h1 = heap_record_transaction h self1 ''deposit'' amt now
        in (Inr (balance_attr self1), self1, h1))"

definition heap_withdraw ::
  "heap \<Rightarrow> BankAccount_object \<Rightarrow> double \<Rightarrow> datetime
     \<Rightarrow> (ValueError + double) \<times> BankAccount_object \<times> heap" where
  "heap_withdraw h self amt now =
     (if fle amt (Finite 0) then (Inl Withdrawal_amount_must_be_positive, self, h)
      else if flt (fsub (balance_attr self) amt) (fneg (overdraft_limit_attr self))
      then (Inl (Withdrawal_would_exceed_overdraft_limit_of (overdraft_limit_attr self)),
            self, h)
      else let self1 = self\<lparr>balance_attr := fsub (balance_attr self) amt\<rparr>;
               h1 = heap_record_transaction h self1 ''withdrawal'' amt now
        in (Inr (balance_attr self1), self1, h1))"

text \<open>\<^verbatim>\<open>get_transaction_history\<close>: the reference to the new list, and the heap holding it.\<close>

definition heap_get_transaction_history :: "heap \<Rightarrow> BankAccount_object \<Rightarrow> nat \<times> heap" where
  "heap_get_transaction_history h self = list_copy h (transaction_history_attr self)"

text \<open>
  What a list reference shows to whoever reads through it: the dictionaries it refers
  to, in order. \<open>None\<close> when the reference or one of the elements is dangling.
\<close>

definition read_list :: "heap \<Rightarrow> nat \<Rightarrow> transaction list option" where
  "read_list h r =
     (case list_at h r of None \<Rightarrow> None | Some ds \<Rightarrow> those (map (dict_at h) ds))"

text \<open>
  The account of the first part that an account object stands for: its attributes, with
  the history read through the reference.
\<close>

definition account_value :: "heap \<Rightarrow> BankAccount_object \<Rightarrow> BankAccount option" where
  "account_value h self =
     (case read_list h (transaction_history_attr self) of
        None \<Rightarrow> None
      | Some ts \<Rightarrow> Some \<lparr>balance = balance_attr self, transaction_history = ts,
                         overdraft_limit = overdraft_limit_attr self\<rparr>)"

text \<open>
  What a caller can do with a returned history \<^verbatim>\<open>hist\<close>. Every mutation of the list
  object itself (\<^verbatim>\<open>append\<close>, \<^verbatim>\<open>pop\<close>, \<^verbatim>\<open>clear\<close>, \<^verbatim>\<open>hist[i] = x\<close>, \<^verbatim>\<open>sort\<close>, ...)
  leaves some other list of references at the same address. An assignment to a key of one
  of its elements, such as \<^verbatim>\<open>hist[i]["amount"] = v\<close>, changes the dictionary object that
  the element refers to.
\<close>

definition caller_mutates_list :: "heap \<Rightarrow> nat \<Rightarrow> nat list \<Rightarrow> heap" where
  "caller_mutates_list h r ds = (case list_at h r of Some old \<Rightarrow> h[r := PyList ds] | None \<Rightarrow> h)"

definition list_getitem :: "heap \<Rightarrow> nat \<Rightarrow> nat \<Rightarrow> nat option" where
  "list_getitem h r i =
     (case list_at h r of None \<Rightarrow> None
      | Some ds \<Rightarrow> if i < length ds then Some (ds ! i) else None)"

definition dict_set_amount :: "heap \<Rightarrow> nat \<Rightarrow> double \<Rightarrow> heap" where
  "dict_set_amount h d v =
     (case dict_at h d of Some t \<Rightarrow> h[d := Dict (t\<lparr>amount := v\<rparr>)] | None \<Rightarrow> h)"

text \<open>
  The scenario \<^verbatim>\<open>acct = BankAccount(b, l); hist = acct.get_transaction_history();
  hist[i]["amount"] = v\<close>, started in an empty heap: what the account's own history
  shows afterwards.
\<close>

definition history_after_caller_assignment ::
  "double \<Rightarrow> double \<Rightarrow> datetime \<Rightarrow> nat \<Rightarrow> double \<Rightarrow> transaction list option" where
  "history_after_caller_assignment b l now i v =
     (case heap_init [] b l now of
        (Inl e, h) \<Rightarrow> None
      | (Inr acct, h1) \<Rightarrow>
          let (hist, h2) = heap_get_transaction_history h1 acct
          in (case list_getitem h2 hist i of
                None \<Rightarrow> None
              | Some d \<Rightarrow> read_list (dict_set_amount h2 d v) (transaction_history_attr acct)))"

subsection \<open>Sequences of calls, as the shell makes them\<close>

text \<open>
  The command-line shell (\<^verbatim>\<open>src/app.py\<close>, \<^verbatim>\<open>make_deposit\<close> and
  \<^verbatim>\<open>make_withdrawal\<close>) wraps every call in \<^verbatim>\<open>try ... except ValueError\<close>: a failed
  call is reported and the session goes on with the state it had. In stateful mode the
  state is the account object; in stateless mode the shell keeps \<^verbatim>\<open>self.balance\<close> and
  \<^verbatim>\<open>self.overdraft_limit\<close> and assigns the returned balance only when the call returns.
\<close>

datatype call = Deposit double | Withdraw double

fun stateful_call ::
  "BankAccount \<Rightarrow> call \<Rightarrow> datetime \<Rightarrow> (ValueError + double) \<times> BankAccount" where
  "stateful_call account (Deposit amt) now = BankAccount_deposit account amt now"
| "stateful_call account (Withdraw amt) now = BankAccount_withdraw account amt now"

fun run_stateful ::
  "BankAccount \<Rightarrow> (call \<times> datetime) list \<Rightarrow> (ValueError + double) list \<times> BankAccount" where
  "run_stateful account [] = ([], account)"
| "run_stateful account ((c, now) # cs) =
     (let (r, account1) = stateful_call account c now;
          (rs, account2) = run_stateful account1 cs
      in (r # rs, account2))"

fun stateless_call :: "double \<Rightarrow> double \<Rightarrow> call \<Rightarrow> (ValueError + double) \<times> double" where
  "stateless_call bal limit (Deposit amt) =
     (case deposit bal amt of Inl e \<Rightarrow> (Inl e, bal) | Inr new_balance \<Rightarrow> (Inr new_balance, new_balance))"
| "stateless_call bal limit (Withdraw amt) =
     (case withdraw bal amt limit of Inl e \<Rightarrow> (Inl e, bal) | Inr new_balance \<Rightarrow> (Inr new_balance, new_balance))"

fun run_stateless :: "double \<Rightarrow> double \<Rightarrow> call list \<Rightarrow> (ValueError + double) list \<times> double" where
  "run_stateless bal limit [] = ([], bal)"
| "run_stateless bal limit (c # cs) =
     (let (r, bal1) = stateless_call bal limit c;
          (rs, bal2) = run_stateless bal1 limit cs
      in (r # rs, bal2))"

text \<open>A whole stateful session: construct the account, then make the calls.\<close>

definition stateful_session ::
  "double \<Rightarrow> double \<Rightarrow> datetime \<Rightarrow> (call \<times> datetime) list
     \<Rightarrow> ValueError + ((ValueError + double) list \<times> BankAccount)" where
  "stateful_session initial_balance limit now cs =
     (case BankAccount_init initial_balance limit now of
        Inl e \<Rightarrow> Inl e
      | Inr account \<Rightarrow> Inr (run_stateful account cs))"

subsection \<open>Vocabulary of the properties\<close>

text \<open>An outcome fails with a given kind of error.\<close>

definition raises :: "ValueError + 'a \<Rightarrow> error_kind \<Rightarrow> bool" where
  "raises r k = (case r of Inl e \<Rightarrow> kind e = k | Inr v \<Rightarrow> False)"

text \<open>The amount a call passes, and sessions whose amounts are all finite numbers.\<close>

fun amount_of :: "call \<Rightarrow> double" where
  "amount_of (Deposit amt) = amt"
| "amount_of (Withdraw amt) = amt"

definition finite_amounts :: "(call \<times> datetime) list \<Rightarrow> bool" where
  "finite_amounts cs = list_all (\<lambda>c. is_finite (amount_of (fst c))) cs"

text \<open>The balances returned by the calls of a session that succeeded, in order.\<close>

fun returned :: "(ValueError + double) list \<Rightarrow> double list" where
  "returned [] = []"
| "returned (Inl e # rs) = returned rs"
| "returned (Inr v # rs) = v # returned rs"

text \<open>The newest entry, when there is one, shows the current balance.\<close>

definition last_entry_current :: "BankAccount \<Rightarrow> bool" where
  "last_entry_current self =
     (case rev (transaction_history self) of
        [] \<Rightarrow> True
      | t # ts \<Rightarrow> resulting_balance t = balance self)"

section \<open>Properties\<close>

subsection \<open>Facts about floats\<close>

text \<open>
  The exponent is the right one, rounding is monotone and leaves every integer up to
  \<open>2 ^ 53\<close> as it is, and a sum or difference is found by naming its exponent and its
  rounded multiple of the spacing.
\<close>

lemma powi2_less_iff: "(2::rat) powi m < 2 powi n \<longleftrightarrow> m < n"
proof
  assume "(2::rat) powi m < 2 powi n"
  show "m < n"
  proof (rule ccontr)
    assume "\<not> m < n"
    then have "(2::rat) powi n \<le> 2 powi m"
      by (intro power_int_increasing) simp_all
    with \<open>(2::rat) powi m < 2 powi n\<close> show False by simp
  qed
next
  assume "m < n"
  then show "(2::rat) powi m < 2 powi n"
    by (intro power_int_strict_increasing) simp_all
qed

lemma powi2_le_iff: "(2::rat) powi m \<le> 2 powi n \<longleftrightarrow> m \<le> n"
  using powi2_less_iff [of n m] by (simp add: not_less [symmetric])

lemma powi2_pos [simp]: "(0::rat) < 2 powi n"
  by simp

lemma ilog2_bounds:
  assumes "0 < q"
  shows "2 powi ilog2 q \<le> q" and "q < 2 powi (ilog2 q + 1)"
proof -
  obtain a b where ab: "quotient_of q = (a, b)" by (cases "quotient_of q")
  have b: "0 < b" using ab by (rule quotient_of_denom_pos)
  have q: "q = of_int a / of_int b" using ab by (rule quotient_of_div)
  have a: "0 < a"
    using assms b unfolding q by (simp add: zero_less_divide_iff)
  define la where "la = bitlen a"
  define lb where "lb = bitlen b"
  have la1: "1 \<le> la" and lb1: "1 \<le> lb"
    using a b bitlen_eq_zero_iff [of a] bitlen_eq_zero_iff [of b] bitlen_nonneg [of a]
      bitlen_nonneg [of b]
    unfolding la_def lb_def by linarith+
  have ba: "2 ^ nat (la - 1) \<le> a" "a < 2 ^ nat la"
    using bitlen_bounds [OF a] unfolding la_def by simp_all
  have bb: "2 ^ nat (lb - 1) \<le> b" "b < 2 ^ nat lb"
    using bitlen_bounds [OF b] unfolding lb_def by simp_all
  have ra: "(2::rat) powi (la - 1) \<le> of_int a" "of_int a < (2::rat) powi la"
  proof -
    have "(of_int (2 ^ nat (la - 1)) :: rat) \<le> of_int a"
      using ba(1) by (simp only: of_int_le_iff)
    then show "(2::rat) powi (la - 1) \<le> of_int a"
      using la1 by (simp add: power_int_def)
    have "(of_int a :: rat) < of_int (2 ^ nat la)"
      using ba(2) by (simp only: of_int_less_iff)
    then show "of_int a < (2::rat) powi la"
      using la1 by (simp add: power_int_def)
  qed
  have rb: "(2::rat) powi (lb - 1) \<le> of_int b" "of_int b < (2::rat) powi lb"
  proof -
    have "(of_int (2 ^ nat (lb - 1)) :: rat) \<le> of_int b"
      using bb(1) by (simp only: of_int_le_iff)
    then show "(2::rat) powi (lb - 1) \<le> of_int b"
      using lb1 by (simp add: power_int_def)
    have "(of_int b :: rat) < of_int (2 ^ nat lb)"
      using bb(2) by (simp only: of_int_less_iff)
    then show "of_int b < (2::rat) powi lb"
      using lb1 by (simp add: power_int_def)
  qed
  have bpos: "(0::rat) < of_int b" using b by simp
  have up: "q < 2 powi (la - lb + 1)"
  proof -
    have "(2::rat) powi la = 2 powi (la - lb + 1) * 2 powi (lb - 1)"
      by (simp flip: power_int_add)
    also have "\<dots> \<le> 2 powi (la - lb + 1) * of_int b"
      using rb(1) by (intro mult_left_mono) simp_all
    finally have "(of_int a :: rat) < 2 powi (la - lb + 1) * of_int b"
      using ra(2) by simp
    then show ?thesis
      unfolding q using bpos by (simp add: pos_divide_less_eq)
  qed
  have lo: "2 powi (la - lb - 1) < q"
  proof -
    have "(2::rat) powi (la - lb - 1) * of_int b < 2 powi (la - lb - 1) * 2 powi lb"
      using rb(2) by (intro mult_strict_left_mono) simp_all
    also have "\<dots> = 2 powi (la - 1)"
      by (simp flip: power_int_add)
    finally have "(2::rat) powi (la - lb - 1) * of_int b < of_int a"
      using ra(1) by simp
    then show ?thesis
      unfolding q using bpos by (simp add: pos_less_divide_eq)
  qed
  have e: "ilog2 q = (if 2 powi (la - lb) \<le> q then la - lb else la - lb - 1)"
    by (simp add: ilog2_def ab la_def lb_def)
  show "2 powi ilog2 q \<le> q"
    using lo by (simp add: e)
  show "q < 2 powi (ilog2 q + 1)"
    using up by (auto simp add: e not_le)
qed


lemma ilog2_unique:
  assumes "2 powi e \<le> q" "q < 2 powi (e + 1)"
  shows "ilog2 q = e"
proof -
  have pos: "0 < q"
    using assms(1) by (rule less_le_trans [rotated]) simp
  have "(2::rat) powi e < 2 powi (ilog2 q + 1)"
    using assms(1) ilog2_bounds(2) [OF pos] by simp
  moreover have "(2::rat) powi ilog2 q < 2 powi (e + 1)"
    using assms(2) ilog2_bounds(1) [OF pos] by simp
  ultimately have "e < ilog2 q + 1" "ilog2 q < e + 1"
    by (simp_all add: powi2_less_iff)
  then show ?thesis by simp
qed

lemma ilog2_mono:
  assumes "0 < x" "x \<le> y"
  shows "ilog2 x \<le> ilog2 y"
proof -
  have "0 < y" using assms by simp
  have "(2::rat) powi ilog2 x < 2 powi (ilog2 y + 1)"
    using ilog2_bounds(1) [OF assms(1)] ilog2_bounds(2) [OF \<open>0 < y\<close>] assms(2) by simp
  then have "ilog2 x < ilog2 y + 1"
    by (simp add: powi2_less_iff)
  then show ?thesis by simp
qed


lemma round_half_even_of_int [simp]: "round_half_even (of_int n) = n"
  by (simp add: round_half_even_def)

lemma round_half_even_bounds:
  "\<lfloor>x\<rfloor> \<le> round_half_even x" "round_half_even x \<le> \<lfloor>x\<rfloor> + 1"
  by (simp_all add: round_half_even_def Let_def)

lemma round_half_even_mono:
  assumes "x \<le> y"
  shows "round_half_even x \<le> round_half_even y"
proof (cases "\<lfloor>x\<rfloor> = \<lfloor>y\<rfloor>")
  case True
  then show ?thesis
    using assms by (auto simp: round_half_even_def Let_def)
next
  case False
  then have "\<lfloor>x\<rfloor> + 1 \<le> \<lfloor>y\<rfloor>"
    using floor_mono [OF assms] by simp
  then show ?thesis
    using round_half_even_bounds(2) [of x] round_half_even_bounds(1) [of y] by simp
qed

lemma round_half_even_ge: "of_int n \<le> x \<Longrightarrow> n \<le> round_half_even x"
  using round_half_even_mono [of "of_int n" x] by simp

lemma round_half_even_le: "x \<le> of_int n \<Longrightarrow> round_half_even x \<le> n"
  using round_half_even_mono [of x "of_int n"] by simp

lemma quantum_pos [simp]: "0 < quantum q"
  by (simp add: quantum_def)

lemma round_rat_minus: "round_rat (- q) = - round_rat q"
  by (simp add: round_rat_def quantum_def)

lemma round_rat_nonneg: "0 \<le> q \<Longrightarrow> 0 \<le> round_rat q"
proof -
  assume "0 \<le> q"
  then have "0 \<le> \<bar>q\<bar> / quantum q"
    using quantum_pos [of q] by (simp add: zero_le_divide_iff less_imp_le)
  then have "0 \<le> round_half_even (\<bar>q\<bar> / quantum q)"
    using round_half_even_ge [of 0] by simp
  moreover have "0 \<le> quantum q"
    by (rule less_imp_le) (rule quantum_pos)
  ultimately have "(0::rat) \<le> of_int (round_half_even (\<bar>q\<bar> / quantum q)) * quantum q"
    by (intro mult_nonneg_nonneg) simp_all
  then show ?thesis
    using \<open>0 \<le> q\<close> by (simp add: round_rat_def sgn_if)
qed

lemma round_rat_pos_eq:
  "0 < q \<Longrightarrow> round_rat q =
     of_int (round_half_even (q / 2 powi (max (ilog2 q) (- 1022) - 52)))
       * 2 powi (max (ilog2 q) (- 1022) - 52)"
  by (simp add: round_rat_def quantum_def)

lemma round_rat_mono_pos:
  assumes "0 < x" "x \<le> y"
  shows "round_rat x \<le> round_rat y"
proof -
  have y: "0 < y" using assms by simp
  define ex where "ex = ilog2 x"
  define ey where "ey = ilog2 y"
  define px where "px = max ex (- 1022) - 52"
  define py where "py = max ey (- 1022) - 52"
  have exy: "ex \<le> ey"
    unfolding ex_def ey_def using assms by (rule ilog2_mono)
  have rx: "round_rat x = of_int (round_half_even (x / 2 powi px)) * 2 powi px"
    using assms(1) by (simp add: round_rat_pos_eq px_def ex_def)
  have ry: "round_rat y = of_int (round_half_even (y / 2 powi py)) * 2 powi py"
    using y by (simp add: round_rat_pos_eq py_def ey_def)
  show ?thesis
  proof (cases "px = py")
    case True
    have "x / 2 powi py \<le> y / 2 powi py"
      using assms(2) by (simp add: divide_right_mono)
    then have "round_half_even (x / 2 powi py) \<le> round_half_even (y / 2 powi py)"
      by (rule round_half_even_mono)
    then have "(of_int (round_half_even (x / 2 powi py)) :: rat) * 2 powi py
        \<le> of_int (round_half_even (y / 2 powi py)) * 2 powi py"
      by (intro mult_right_mono) simp_all
    then show ?thesis
      by (simp add: rx ry True)
  next
    case False
    then have lt: "ex < ey" and big: "- 1022 < ey"
      using exy unfolding px_def py_def by (auto simp: max_def split: if_splits)
    have py_eq: "py = ey - 52" using big by (simp add: py_def)
    have gap: "0 \<le> ey - px" using lt big by (simp add: px_def)
    \<comment> \<open>the rounding of \<open>y\<close> stays at or above \<open>2 powi ey\<close>\<close>
    have "(of_int (2 ^ 52) :: rat) = 2 powi ey / 2 powi py"
      by (simp add: py_eq power_int_diff)
    also have "\<dots> \<le> y / 2 powi py"
      using ilog2_bounds(1) [OF y] by (simp add: ey_def divide_right_mono)
    finally have "2 ^ 52 \<le> round_half_even (y / 2 powi py)"
      by (rule round_half_even_ge)
    then have "(of_int (2 ^ 52) :: rat) \<le> of_int (round_half_even (y / 2 powi py))"
      by (simp only: of_int_le_iff)
    then have A: "(of_int (2 ^ 52) :: rat) * 2 powi py
        \<le> of_int (round_half_even (y / 2 powi py)) * 2 powi py"
      by (intro mult_right_mono) simp_all
    have B: "(of_int (2 ^ 52) :: rat) * 2 powi py = 2 powi ey"
      by (simp add: py_eq power_int_diff)
    have upper: "2 powi ey \<le> round_rat y"
      unfolding ry using A [unfolded B] .
    \<comment> \<open>the rounding of \<open>x\<close> stays at or below \<open>2 powi ey\<close>\<close>
    have pw: "(2::rat) powi (ey - px) = of_int (2 ^ nat (ey - px))"
      using gap by (simp add: power_int_def)
    have "x < 2 powi (ex + 1)"
      using ilog2_bounds(2) [OF assms(1)] by (simp add: ex_def)
    also have "\<dots> \<le> 2 powi ey"
      using lt by (simp add: powi2_le_iff)
    finally have "x / 2 powi px \<le> 2 powi ey / 2 powi px"
      by (simp add: divide_right_mono)
    also have "\<dots> = 2 powi (ey - px)"
      by (simp add: power_int_diff)
    also have "\<dots> = of_int (2 ^ nat (ey - px))"
      by (rule pw)
    finally have "round_half_even (x / 2 powi px) \<le> 2 ^ nat (ey - px)"
      by (rule round_half_even_le)
    then have "(of_int (round_half_even (x / 2 powi px)) :: rat) \<le> of_int (2 ^ nat (ey - px))"
      by (simp only: of_int_le_iff)
    then have C: "(of_int (round_half_even (x / 2 powi px)) :: rat) * 2 powi px
        \<le> of_int (2 ^ nat (ey - px)) * 2 powi px"
      by (intro mult_right_mono) simp_all
    have D: "(of_int (2 ^ nat (ey - px)) :: rat) * 2 powi px = 2 powi ey"
      unfolding pw [symmetric] by (simp flip: power_int_add)
    have "round_rat x \<le> 2 powi ey"
      unfolding rx using C [unfolded D] .
    with upper show ?thesis by simp
  qed
qed

lemma round_rat_mono:
  assumes "x \<le> y"
  shows "round_rat x \<le> round_rat y"
proof -
  consider "0 < x" | "x \<le> 0" "0 \<le> y" | "y < 0" by linarith
  then show ?thesis
  proof cases
    case 1
    then show ?thesis using assms by (rule round_rat_mono_pos)
  next
    case 2
    have "round_rat x \<le> 0"
      using round_rat_nonneg [of "- x"] 2(1) by (simp add: round_rat_minus)
    moreover have "0 \<le> round_rat y"
      using 2(2) by (rule round_rat_nonneg)
    ultimately show ?thesis by simp
  next
    case 3
    then have "round_rat (- y) \<le> round_rat (- x)"
      using assms by (intro round_rat_mono_pos) simp_all
    then show ?thesis by (simp add: round_rat_minus)
  qed
qed


text \<open>The rounded value is within half a spacing of the exact one.\<close>

lemma round_half_even_nearest: "\<bar>of_int (round_half_even x) - x\<bar> \<le> 1 / 2"
proof -
  have "of_int \<lfloor>x\<rfloor> \<le> x" "x < of_int \<lfloor>x\<rfloor> + 1"
    by linarith+
  then show ?thesis
    by (auto simp: round_half_even_def Let_def abs_le_iff)
qed

lemma round_rat_nearest: "\<bar>round_rat q - q\<bar> \<le> quantum q / 2"
proof (cases "q = 0")
  case True
  then show ?thesis
    using quantum_pos [of 0] by (simp add: round_rat_def less_imp_le)
next
  case False
  define n where "n = round_half_even (\<bar>q\<bar> / quantum q)"
  have Q: "0 < quantum q" by (rule quantum_pos)
  have "\<bar>of_int n - \<bar>q\<bar> / quantum q\<bar> \<le> 1 / 2"
    unfolding n_def by (rule round_half_even_nearest)
  moreover have Q0: "0 \<le> quantum q"
    using Q by (rule less_imp_le)
  ultimately have "\<bar>of_int n - \<bar>q\<bar> / quantum q\<bar> * quantum q \<le> 1 / 2 * quantum q"
    by (rule mult_right_mono)
  moreover have "\<bar>of_int n - \<bar>q\<bar> / quantum q\<bar> * quantum q = \<bar>of_int n * quantum q - \<bar>q\<bar>\<bar>"
  proof -
    have "\<bar>of_int n - \<bar>q\<bar> / quantum q\<bar> * quantum q
        = \<bar>(of_int n - \<bar>q\<bar> / quantum q) * quantum q\<bar>"
      using Q0 by (simp only: abs_mult abs_of_nonneg)
    also have "(of_int n - \<bar>q\<bar> / quantum q) * quantum q = of_int n * quantum q - \<bar>q\<bar>"
      using Q by (simp add: left_diff_distrib less_imp_neq [THEN not_sym])
    finally show ?thesis .
  qed
  ultimately have *: "\<bar>of_int n * quantum q - \<bar>q\<bar>\<bar> \<le> quantum q / 2"
    by simp
  have "round_rat q - q = sgn q * (of_int n * quantum q - \<bar>q\<bar>)"
    using False by (simp add: round_rat_def n_def right_diff_distrib sgn_mult_abs)
  then have "\<bar>round_rat q - q\<bar> = \<bar>of_int n * quantum q - \<bar>q\<bar>\<bar>"
    using False by (simp add: abs_mult abs_sgn_eq)
  with * show ?thesis by simp
qed

lemma round_half_even_eqI:
  "\<bar>x - of_int n\<bar> < 1 / 2 \<Longrightarrow> round_half_even x = n"
proof -
  assume a: "\<bar>x - of_int n\<bar> < 1 / 2"
  show ?thesis
  proof (cases "of_int n \<le> x")
    case True
    with a have "\<lfloor>x\<rfloor> = n" by (intro floor_unique) simp_all
    with a True show ?thesis by (simp add: round_half_even_def)
  next
    case False
    with a have "\<lfloor>x\<rfloor> = n - 1" by (intro floor_unique) simp_all
    with a False show ?thesis by (simp add: round_half_even_def)
  qed
qed

lemma round_half_even_tie_up:
  "of_int n - x = 1 / 2 \<Longrightarrow> even n \<Longrightarrow> round_half_even x = n"
proof -
  assume a: "of_int n - x = 1 / 2" and e: "even n"
  have x: "x = of_int (n - 1) + 1 / 2" using a by simp
  have "\<lfloor>x\<rfloor> = n - 1" unfolding x by (intro floor_unique) simp_all
  then show ?thesis using e unfolding x by (simp add: round_half_even_def)
qed

lemma round_half_even_tie_down:
  "x - of_int n = 1 / 2 \<Longrightarrow> even n \<Longrightarrow> round_half_even x = n"
proof -
  assume a: "x - of_int n = 1 / 2" and e: "even n"
  have x: "x = of_int n + 1 / 2" using a by simp
  have "\<lfloor>x\<rfloor> = n" unfolding x by (intro floor_unique) simp_all
  then show ?thesis using e unfolding x by (simp add: round_half_even_def)
qed

lemma round64_eqI:
  assumes "q \<noteq> 0"
    and "2 powi e \<le> \<bar>q\<bar>" and "\<bar>q\<bar> < 2 powi (e + 1)"
    and "round_half_even (\<bar>q\<bar> / 2 powi (max e (- 1022) - 52)) = n"
    and "r = sgn q * (of_int n * 2 powi (max e (- 1022) - 52))"
    and "\<bar>r\<bar> < 2 ^ 1024"
  shows "round64 q = Finite r"
proof -
  have "ilog2 \<bar>q\<bar> = e" using assms(2,3) by (rule ilog2_unique)
  then have "round_rat q = r"
    using assms(1,4,5) by (simp add: round_rat_def quantum_def)
  then show ?thesis
    using assms(6) by (simp add: round64_def Let_def abs_less_iff not_le)
qed

lemma round_rat_on_grid:
  assumes "q \<noteq> 0" "\<bar>q\<bar> / quantum q = of_int m"
  shows "round_rat q = q"
proof -
  have "of_int m * quantum q = \<bar>q\<bar>"
    using assms(2) quantum_pos [of q] by (simp add: field_simps)
  then have "round_rat q = sgn q * \<bar>q\<bar>"
    using assms by (simp add: round_rat_def)
  then show ?thesis by (simp add: sgn_mult_abs)
qed

lemma round64_of_int:
  assumes "\<bar>n\<bar> \<le> 2 ^ 53"
  shows "round64 (of_int n) = Finite (of_int n)"
proof (cases "n = 0")
  case True
  then show ?thesis by (simp add: round64_def round_rat_def)
next
  case False
  define q :: rat where "q = of_int n"
  define e where "e = ilog2 \<bar>q\<bar>"
  have q0: "q \<noteq> 0" using False by (simp add: q_def)
  have one: "1 \<le> \<bar>q\<bar>"
  proof -
    have "1 \<le> \<bar>n\<bar>" using False by simp
    then have "(of_int 1 :: rat) \<le> of_int \<bar>n\<bar>" by (simp only: of_int_le_iff)
    then show ?thesis by (simp add: q_def)
  qed
  have top: "\<bar>q\<bar> \<le> 2 powi 53"
  proof -
    have "(of_int \<bar>n\<bar> :: rat) \<le> of_int (2 ^ 53)"
      using assms by (simp only: of_int_le_iff)
    then show ?thesis by (simp add: q_def)
  qed
  have pos: "0 < \<bar>q\<bar>" using q0 by simp
  have "(2::rat) powi 0 < 2 powi (e + 1)"
    using one ilog2_bounds(2) [OF pos] by (simp add: e_def)
  then have "0 < e + 1" by (simp only: powi2_less_iff)
  then have e0: "0 \<le> e" by simp
  have "(2::rat) powi e \<le> 2 powi 53"
    using top ilog2_bounds(1) [OF pos] unfolding e_def by (rule order_trans [rotated])
  then have e53: "e \<le> 53" by (simp only: powi2_le_iff)
  have qu: "quantum q = 2 powi (e - 52)"
    using e0 by (simp add: quantum_def e_def)
  have "\<exists>m. \<bar>q\<bar> / quantum q = of_int m"
  proof (cases "e = 53")
    case True
    have "(2::rat) powi 53 \<le> \<bar>q\<bar>"
      using ilog2_bounds(1) [OF pos] by (simp add: e_def [symmetric] True)
    with top have "\<bar>q\<bar> = 2 powi 53" by simp
    then have "\<bar>q\<bar> / quantum q = of_int (2 ^ 52)"
      by (simp add: qu True)
    then show ?thesis by blast
  next
    case False
    with e53 have le: "0 \<le> 52 - e" by simp
    have "\<bar>q\<bar> / quantum q = \<bar>q\<bar> * 2 powi (52 - e)"
      by (simp add: qu power_int_diff)
    also have "\<dots> = of_int (\<bar>n\<bar> * 2 ^ nat (52 - e))"
      using le by (simp add: q_def power_int_def)
    finally show ?thesis by blast
  qed
  then have "round_rat q = q"
    using round_rat_on_grid [OF q0] by blast
  moreover have "\<bar>q\<bar> < 2 ^ 1024"
    using top by (rule le_less_trans) simp
  ultimately show ?thesis
    by (simp add: round64_def q_def [symmetric] abs_less_iff not_le)
qed

lemma round64_0 [simp]: "round64 0 = Finite 0"
  using round64_of_int [of 0] by simp

lemma round64_1 [simp]: "round64 1 = Finite 1"
  using round64_of_int [of 1] by simp

lemma round64_numeral [simp]:
  "(numeral k :: int) \<le> 2 ^ 53 \<Longrightarrow> round64 (numeral k) = Finite (numeral k)"
  using round64_of_int [of "numeral k"] by simp

lemma round64_neg_numeral [simp]:
  "(numeral k :: int) \<le> 2 ^ 53 \<Longrightarrow> round64 (- numeral k) = Finite (- numeral k)"
  using round64_of_int [of "- numeral k"] by simp

lemma round64_not_NaN [simp]: "round64 q \<noteq> NaN"
  by (simp add: round64_def Let_def)

lemma round64_minus: "round64 (- q) = fneg (round64 q)"
  by (simp add: round64_def round_rat_minus Let_def)

lemma fneg_fneg [simp]: "fneg (fneg x) = x"
  by (cases x) simp_all

lemma is_double_fneg: "is_double x \<Longrightarrow> is_double (fneg x)"
  by (cases x) (simp_all add: is_double_def round64_minus)

lemma flt_imp_not_fle: "flt x y \<Longrightarrow> \<not> fle y x"
  by (cases x; cases y) simp_all

lemma fle_imp_not_flt: "fle x y \<Longrightarrow> \<not> flt y x"
  by (cases x; cases y) simp_all

lemma not_flt_imp_fle: "\<not> flt x y \<Longrightarrow> x \<noteq> NaN \<Longrightarrow> y \<noteq> NaN \<Longrightarrow> fle y x"
  by (cases x; cases y) simp_all

lemma fle_not_NaN: "fle x y \<Longrightarrow> x \<noteq> NaN \<and> y \<noteq> NaN"
  by (cases x; cases y) simp_all

lemma fle_round64:
  assumes "round64 c = Finite c" "c \<le> x"
  shows "fle (Finite c) (round64 x)"
proof -
  from assms(1) have c: "round_rat c = c" "- (2 ^ 1024) < c"
    by (auto simp: round64_def Let_def not_le split: if_splits)
  have "c \<le> round_rat x"
    using round_rat_mono [OF assms(2)] c(1) by simp
  then show ?thesis
    using c(2) by (simp add: round64_def Let_def)
qed

lemma fadd_keeps_floor:
  assumes "fle c x" "is_double c" "is_finite a" "flt (Finite 0) a"
  shows "fle c (fadd x a)"
proof -
  from assms(3,4) obtain q where a: "a = Finite q" and q: "0 < q"
    by (cases a) (simp_all add: is_finite_def)
  show ?thesis
  proof (cases x)
    case (Finite b)
    show ?thesis
    proof (cases c)
      case (Finite cq)
      have "round64 cq = Finite cq"
        using assms(2) by (simp add: is_double_def Finite)
      moreover have "cq \<le> b + q"
        using assms(1) q by (simp add: Finite \<open>x = Finite b\<close>)
      ultimately show ?thesis
        unfolding Finite \<open>x = Finite b\<close> a fadd.simps by (rule fle_round64)
    next
      case NInf
      then show ?thesis
        by (cases "round64 (b + q)") (simp_all add: a \<open>x = Finite b\<close>)
    qed (use assms(1) \<open>x = Finite b\<close> in simp_all)
  qed (use assms(1) a in \<open>cases c; simp\<close>)+
qed

lemma fsub_not_NaN: "x \<noteq> NaN \<Longrightarrow> is_finite a \<Longrightarrow> fsub x a \<noteq> NaN"
  by (cases x; cases a) (simp_all add: fsub_def is_finite_def)

subsection \<open>Auxiliary facts\<close>

lemma raises_Inl [simp]: "raises (Inl e) k \<longleftrightarrow> kind e = k"
  by (simp add: raises_def)

lemma raises_Inr [simp]: "\<not> raises (Inr v) k"
  by (simp add: raises_def)

lemma deposit_limit [simp]:
  "overdraft_limit (snd (BankAccount_deposit self amt now)) = overdraft_limit self"
  by (simp add: BankAccount_deposit_def record_transaction_def Let_def)

lemma withdraw_limit [simp]:
  "overdraft_limit (snd (BankAccount_withdraw self amt now)) = overdraft_limit self"
  by (simp add: BankAccount_withdraw_def record_transaction_def Let_def)

lemma stateful_call_limit [simp]:
  "overdraft_limit (snd (stateful_call self c now)) = overdraft_limit self"
  by (cases c) simp_all

lemma run_stateful_limit:
  "overdraft_limit (snd (run_stateful self cs)) = overdraft_limit self"
proof (induction cs arbitrary: self)
  case Nil
  show ?case by simp
next
  case (Cons x cs)
  obtain c now where x: "x = (c, now)" by (cases x)
  have "overdraft_limit (snd (run_stateful (snd (stateful_call self c now)) cs)) =
        overdraft_limit (snd (stateful_call self c now))"
    by (rule Cons.IH)
  then show ?case
    by (simp add: x split_beta Let_def)
qed

lemma py_max_zero_nonneg: "fle (Finite 0) (py_max (Finite 0) l)"
  by (cases l) (simp_all add: py_max_def)

lemma py_max_zero_is_double: "is_double l \<Longrightarrow> is_double (py_max (Finite 0) l)"
  by (simp add: py_max_def is_double_def)

lemma positive_finite_amount:
  "is_finite amt \<Longrightarrow> \<not> fle amt (Finite 0) \<Longrightarrow> flt (Finite 0) amt"
  by (cases amt) (simp_all add: is_finite_def)

lemma stateful_call_floor:
  assumes "fle (fneg (overdraft_limit self)) (balance self)"
    and "is_double (overdraft_limit self)"
    and "is_finite (amount_of c)"
  shows "fle (fneg (overdraft_limit self)) (balance (snd (stateful_call self c now)))"
proof (cases c)
  case (Deposit amt)
  show ?thesis
  proof (cases "fle amt (Finite 0)")
    case True
    then show ?thesis
      using assms(1) by (simp add: Deposit BankAccount_deposit_def)
  next
    case False
    have "flt (Finite 0) amt"
      using assms(3) False by (simp add: Deposit positive_finite_amount)
    with assms have "fle (fneg (overdraft_limit self)) (fadd (balance self) amt)"
      by (intro fadd_keeps_floor is_double_fneg) (simp_all add: Deposit)
    then show ?thesis
      using False
      by (simp add: Deposit BankAccount_deposit_def record_transaction_def Let_def)
  qed
next
  case (Withdraw amt)
  have nn: "fneg (overdraft_limit self) \<noteq> NaN" "balance self \<noteq> NaN"
    using fle_not_NaN [OF assms(1)] by simp_all
  have fin: "fsub (balance self) amt \<noteq> NaN"
    using nn(2) assms(3) by (simp add: Withdraw fsub_not_NaN)
  show ?thesis
  proof (cases "fle amt (Finite 0) \<or> flt (fsub (balance self) amt) (fneg (overdraft_limit self))")
    case True
    then show ?thesis
      using assms(1) by (auto simp: Withdraw BankAccount_withdraw_def)
  next
    case False
    then have "fle (fneg (overdraft_limit self)) (fsub (balance self) amt)"
      using fin nn(1) by (intro not_flt_imp_fle) simp_all
    then show ?thesis
      using False
      by (simp add: Withdraw BankAccount_withdraw_def record_transaction_def Let_def)
  qed
qed

lemma run_stateful_floor:
  assumes "fle (fneg (overdraft_limit self)) (balance self)"
    and "is_double (overdraft_limit self)"
    and "finite_amounts cs"
  shows "fle (fneg (overdraft_limit self)) (balance (snd (run_stateful self cs)))"
  using assms
proof (induction cs arbitrary: self)
  case Nil
  then show ?case by simp
next
  case (Cons x cs)
  obtain c now where x: "x = (c, now)" by (cases x)
  let ?s = "snd (stateful_call self c now)"
  have fin: "is_finite (amount_of c)" "finite_amounts cs"
    using Cons.prems(3) by (simp_all add: finite_amounts_def x)
  have "fle (fneg (overdraft_limit ?s)) (balance ?s)"
    using stateful_call_floor [OF Cons.prems(1,2) fin(1), of now] by simp
  moreover have "is_double (overdraft_limit ?s)"
    using Cons.prems(2) by simp
  ultimately have "fle (fneg (overdraft_limit ?s)) (balance (snd (run_stateful ?s cs)))"
    using fin(2) by (rule Cons.IH)
  then show ?case
    by (simp add: x split_beta Let_def)
qed

lemma init_cases:
  "BankAccount_init b l now =
     (if flt b (Finite 0) then Inl Initial_balance_cannot_be_negative
      else Inr \<lparr>balance = b,
                transaction_history =
                  (if flt (Finite 0) b
                   then [\<lparr>txn_type = ''initial deposit'', amount = b,
                          timestamp = now, resulting_balance = b\<rparr>] else []),
                overdraft_limit = py_max (Finite 0) l\<rparr>)"
  by (simp add: BankAccount_init_def record_transaction_def Let_def)

subsection \<open>Auxiliary facts about sessions\<close>

lemma stateful_call_simulates:
  "stateless_call (balance self) (overdraft_limit self) c =
     (fst (stateful_call self c now), balance (snd (stateful_call self c now)))"
  by (cases c)
     (simp_all add: BankAccount_deposit_def BankAccount_withdraw_def deposit_def withdraw_def
                    record_transaction_def Let_def)

lemma run_stateful_simulates:
  "run_stateless (balance self) (overdraft_limit self) (map fst cs) =
     (fst (run_stateful self cs), balance (snd (run_stateful self cs)))"
proof (induction cs arbitrary: self)
  case Nil
  show ?case by simp
next
  case (Cons x cs)
  obtain c now where x: "x = (c, now)" by (cases x)
  let ?s = "snd (stateful_call self c now)"
  have "run_stateless (balance ?s) (overdraft_limit self) (map fst cs) =
          (fst (run_stateful ?s cs), balance (snd (run_stateful ?s cs)))"
    using Cons.IH [of ?s] by simp
  then show ?case
    by (simp add: x stateful_call_simulates [of self c now] split_beta Let_def)
qed

lemma returned_value_is_balance:
  "fst (stateful_call self c now) = Inr v \<Longrightarrow> balance (snd (stateful_call self c now)) = v"
  by (cases c)
     (auto simp: BankAccount_deposit_def BankAccount_withdraw_def Let_def split: if_splits)

lemma stateful_call_appends:
  "\<exists>ys. transaction_history (snd (stateful_call self c now)) = transaction_history self @ ys
      \<and> map resulting_balance ys = returned [fst (stateful_call self c now)]"
  by (cases c)
     (simp_all add: BankAccount_deposit_def BankAccount_withdraw_def record_transaction_def
                    Let_def)

lemma returned_Cons: "returned (r # rs) = returned [r] @ returned rs"
  by (cases r) simp_all

lemma run_stateful_appends:
  "\<exists>ys. transaction_history (snd (run_stateful self cs)) = transaction_history self @ ys
      \<and> map resulting_balance ys = returned (fst (run_stateful self cs))"
proof (induction cs arbitrary: self)
  case Nil
  show ?case by simp
next
  case (Cons x cs)
  obtain c now where x: "x = (c, now)" by (cases x)
  let ?s = "snd (stateful_call self c now)"
  obtain ys where ys: "transaction_history ?s = transaction_history self @ ys"
      "map resulting_balance ys = returned [fst (stateful_call self c now)]"
    using stateful_call_appends by blast
  obtain zs where zs: "transaction_history (snd (run_stateful ?s cs)) =
        transaction_history ?s @ zs"
      "map resulting_balance zs = returned (fst (run_stateful ?s cs))"
    using Cons.IH by blast
  have run: "run_stateful self (x # cs) =
      (fst (stateful_call self c now) # fst (run_stateful ?s cs), snd (run_stateful ?s cs))"
    by (simp add: x split_beta Let_def)
  have "transaction_history (snd (run_stateful self (x # cs))) =
          transaction_history self @ (ys @ zs)"
    using ys(1) zs(1) by (simp add: run)
  moreover have "map resulting_balance (ys @ zs) = returned (fst (run_stateful self (x # cs)))"
    unfolding run fst_conv
    by (subst returned_Cons) (simp only: map_append ys(2) zs(2))
  ultimately show ?case by blast
qed

lemma run_stateful_append:
  "snd (run_stateful self (cs1 @ cs2)) = snd (run_stateful (snd (run_stateful self cs1)) cs2)"
proof (induction cs1 arbitrary: self)
  case Nil
  show ?case by simp
next
  case (Cons x cs1)
  obtain c now where x: "x = (c, now)" by (cases x)
  show ?case
    using Cons.IH [of "snd (stateful_call self c now)"]
    by (simp add: x split_beta Let_def)
qed

lemma stateful_call_last_entry:
  "last_entry_current self \<Longrightarrow> last_entry_current (snd (stateful_call self c now))"
  by (cases c)
     (auto simp: last_entry_current_def BankAccount_deposit_def BankAccount_withdraw_def
                 record_transaction_def Let_def split: list.splits)

lemma run_stateful_last_entry:
  "last_entry_current self \<Longrightarrow> last_entry_current (snd (run_stateful self cs))"
proof (induction cs arbitrary: self)
  case Nil
  then show ?case by simp
next
  case (Cons x cs)
  obtain c now where x: "x = (c, now)" by (cases x)
  from Cons.IH [OF stateful_call_last_entry [OF Cons.prems, of c now]]
  show ?case
    by (simp add: x split_beta Let_def)
qed

subsection \<open>The heap of objects against the account values\<close>

text \<open>
  An account object whose history can be read through its reference stands for an
  account value, and the methods on objects do what the methods on values do. So the
  properties of the first part hold for the objects as well.
\<close>

lemma those_map_cong:
  "(\<And>d. d \<in> set ds \<Longrightarrow> f d = g d) \<Longrightarrow> those (map f ds) = those (map g ds)"
  by (induction ds) (simp_all split: option.splits)

lemma those_map_Some_elem:
  "those (map f ds) = Some ts \<Longrightarrow> d \<in> set ds \<Longrightarrow> f d \<noteq> None"
  by (induction ds arbitrary: ts) (auto split: option.splits)

lemma those_map_snoc:
  "those (map f ds) = Some ts \<Longrightarrow> f d = Some t \<Longrightarrow> those (map f (ds @ [d])) = Some (ts @ [t])"
  by (induction ds arbitrary: ts) (auto split: option.splits)

lemma dict_at_less: "dict_at h d = Some t \<Longrightarrow> d < length h"
  by (simp add: dict_at_def split: if_splits)

lemma list_at_less: "list_at h r = Some ds \<Longrightarrow> r < length h"
  by (simp add: list_at_def split: if_splits)

lemma dict_not_list: "list_at h r = Some ds \<Longrightarrow> dict_at h d \<noteq> None \<Longrightarrow> d \<noteq> r"
  by (auto simp: list_at_def dict_at_def split: if_splits pyobj.splits)

lemma read_list_elems:
  assumes "list_at h r = Some ds" "read_list h r = Some ts" "d \<in> set ds"
  shows "d < length h \<and> d \<noteq> r \<and> dict_at h d \<noteq> None"
proof -
  from assms have "dict_at h d \<noteq> None"
    by (auto simp: read_list_def dest: those_map_Some_elem)
  then show ?thesis
    using dict_at_less [of h d] dict_not_list [OF assms(1), of d] by auto
qed

lemma read_list_record:
  assumes "read_list h (transaction_history_attr self) = Some ts"
  shows "read_list (heap_record_transaction h self ty amt now) (transaction_history_attr self) =
           Some (ts @ [\<lparr>txn_type = ty, amount = amt, timestamp = now,
                        resulting_balance = balance_attr self\<rparr>])"
proof -
  let ?r = "transaction_history_attr self"
  let ?t = "\<lparr>txn_type = ty, amount = amt, timestamp = now, resulting_balance = balance_attr self\<rparr>"
  from assms obtain ds where ds: "list_at h ?r = Some ds"
    and ts: "those (map (dict_at h) ds) = Some ts"
    by (auto simp: read_list_def split: option.splits)
  have r: "?r < length h" using ds by (rule list_at_less)
  let ?h1 = "h @ [Dict ?t]"
  let ?h2 = "?h1[?r := PyList (ds @ [length h])]"
  have l1: "list_at ?h1 ?r = Some ds"
    using ds r by (simp add: list_at_def nth_append)
  have rec: "heap_record_transaction h self ty amt now = ?h2"
    by (simp add: heap_record_transaction_def alloc_def list_append_def l1)
  have l2: "list_at ?h2 ?r = Some (ds @ [length h])"
    using r by (simp add: list_at_def)
  have old: "dict_at ?h2 d = dict_at h d" if "d \<in> set ds" for d
    using read_list_elems [OF ds assms that] r
    by (simp add: dict_at_def nth_append)
  have new: "dict_at ?h2 (length h) = Some ?t"
    using r by (simp add: dict_at_def)
  have "those (map (dict_at ?h2) ds) = Some ts"
    using those_map_cong [of ds "dict_at ?h2" "dict_at h"] old ts by simp
  then have "those (map (dict_at ?h2) (ds @ [length h])) = Some (ts @ [?t])"
    using new by (rule those_map_snoc)
  then show ?thesis
    by (simp add: rec read_list_def l2)
qed


lemma read_list_alloc:
  assumes "read_list h r = Some ts"
  shows "read_list (h @ [obj]) r = Some ts"
proof -
  from assms obtain ds where ds: "list_at h r = Some ds"
    and ts: "those (map (dict_at h) ds) = Some ts"
    by (auto simp: read_list_def split: option.splits)
  have r: "r < length h" using ds by (rule list_at_less)
  have l1: "list_at (h @ [obj]) r = Some ds"
    using ds r by (simp add: list_at_def nth_append)
  have "dict_at (h @ [obj]) d = dict_at h d" if "d \<in> set ds" for d
    using read_list_elems [OF ds assms that] by (simp add: dict_at_def nth_append)
  then have "those (map (dict_at (h @ [obj])) ds) = those (map (dict_at h) ds)"
    by (rule those_map_cong)
  then show ?thesis
    by (simp add: read_list_def l1 ts)
qed

lemma heap_init_rejects:
  "flt b (Finite 0) \<Longrightarrow> heap_init h b l now = (Inl Initial_balance_cannot_be_negative, h)
     \<and> BankAccount_init b l now = Inl Initial_balance_cannot_be_negative"
  by (simp add: heap_init_def BankAccount_init_def)

lemma heap_init_simulates:
  assumes "\<not> flt b (Finite 0)"
  shows "\<exists>self a. fst (heap_init h b l now) = Inr self
           \<and> BankAccount_init b l now = Inr a
           \<and> account_value (snd (heap_init h b l now)) self = Some a"
proof -
  let ?self = "\<lparr>balance_attr = b, transaction_history_attr = length h,
                 overdraft_limit_attr = py_max (Finite 0) l\<rparr>"
  let ?h1 = "h @ [PyList []]"
  have empty: "read_list ?h1 (transaction_history_attr ?self) = Some []"
    by (simp add: read_list_def list_at_def)
  show ?thesis
  proof (cases "flt (Finite 0) b")
    case True
    from read_list_record [OF empty, of "''initial deposit''" b now]
    show ?thesis
      using True assms
      by (simp add: heap_init_def init_cases alloc_def account_value_def Let_def)
  next
    case False
    then show ?thesis
      using empty assms
      by (simp add: heap_init_def init_cases alloc_def account_value_def Let_def)
  qed
qed

lemma heap_deposit_simulates:
  assumes "account_value h self = Some a"
  shows "fst (heap_deposit h self amt now) = fst (BankAccount_deposit a amt now)
       \<and> account_value (snd (snd (heap_deposit h self amt now)))
                       (fst (snd (heap_deposit h self amt now))) =
           Some (snd (BankAccount_deposit a amt now))"
proof -
  from assms obtain ts where ts: "read_list h (transaction_history_attr self) = Some ts"
    and a: "a = \<lparr>balance = balance_attr self, transaction_history = ts,
                  overdraft_limit = overdraft_limit_attr self\<rparr>"
    by (auto simp: account_value_def split: option.splits)
  let ?self1 = "self\<lparr>balance_attr := fadd (balance_attr self) amt\<rparr>"
  have "read_list h (transaction_history_attr ?self1) = Some ts"
    using ts by simp
  from read_list_record [OF this, of "''deposit''" amt now]
  show ?thesis
    by (simp add: heap_deposit_def BankAccount_deposit_def record_transaction_def
                  account_value_def a ts Let_def)
qed

lemma heap_withdraw_simulates:
  assumes "account_value h self = Some a"
  shows "fst (heap_withdraw h self amt now) = fst (BankAccount_withdraw a amt now)
       \<and> account_value (snd (snd (heap_withdraw h self amt now)))
                       (fst (snd (heap_withdraw h self amt now))) =
           Some (snd (BankAccount_withdraw a amt now))"
proof -
  from assms obtain ts where ts: "read_list h (transaction_history_attr self) = Some ts"
    and a: "a = \<lparr>balance = balance_attr self, transaction_history = ts,
                  overdraft_limit = overdraft_limit_attr self\<rparr>"
    by (auto simp: account_value_def split: option.splits)
  let ?self1 = "self\<lparr>balance_attr := fsub (balance_attr self) amt\<rparr>"
  have "read_list h (transaction_history_attr ?self1) = Some ts"
    using ts by simp
  from read_list_record [OF this, of "''withdrawal''" amt now]
  show ?thesis
    by (simp add: heap_withdraw_def BankAccount_withdraw_def record_transaction_def
                  account_value_def a ts Let_def)
qed

lemma heap_get_transaction_history_copy:
  assumes "account_value h self = Some a"
  shows "fst (heap_get_transaction_history h self) = length h
       \<and> read_list (snd (heap_get_transaction_history h self))
                   (fst (heap_get_transaction_history h self)) = Some (transaction_history a)
       \<and> account_value (snd (heap_get_transaction_history h self)) self = Some a"
proof -
  from assms obtain ts where ts: "read_list h (transaction_history_attr self) = Some ts"
    and a: "a = \<lparr>balance = balance_attr self, transaction_history = ts,
                  overdraft_limit = overdraft_limit_attr self\<rparr>"
    by (auto simp: account_value_def split: option.splits)
  from ts obtain ds where ds: "list_at h (transaction_history_attr self) = Some ds"
    and dts: "those (map (dict_at h) ds) = Some ts"
    by (auto simp: read_list_def split: option.splits)
  let ?h1 = "h @ [PyList ds]"
  have copy: "heap_get_transaction_history h self = (length h, ?h1)"
    by (simp add: heap_get_transaction_history_def list_copy_def alloc_def ds)
  have "dict_at ?h1 d = dict_at h d" if "d \<in> set ds" for d
    using read_list_elems [OF ds ts that] by (simp add: dict_at_def nth_append)
  then have "those (map (dict_at ?h1) ds) = those (map (dict_at h) ds)"
    by (rule those_map_cong)
  then have new: "read_list ?h1 (length h) = Some ts"
    by (simp add: read_list_def list_at_def dts)
  have old: "read_list ?h1 (transaction_history_attr self) = Some ts"
    using ts by (rule read_list_alloc)
  show ?thesis
    by (simp add: copy new a account_value_def old)
qed

lemma caller_list_mutation_frame:
  assumes "account_value h self = Some a"
  shows "account_value
           (caller_mutates_list (snd (heap_get_transaction_history h self))
                                (fst (heap_get_transaction_history h self)) new_elements)
           self = Some a"
proof -
  from assms obtain ts where ts: "read_list h (transaction_history_attr self) = Some ts"
    and a: "a = \<lparr>balance = balance_attr self, transaction_history = ts,
                  overdraft_limit = overdraft_limit_attr self\<rparr>"
    by (auto simp: account_value_def split: option.splits)
  from ts obtain ds where ds: "list_at h (transaction_history_attr self) = Some ds"
    and dts: "those (map (dict_at h) ds) = Some ts"
    by (auto simp: read_list_def split: option.splits)
  have r: "transaction_history_attr self < length h" using ds by (rule list_at_less)
  let ?h1 = "h @ [PyList ds]"
  let ?h2 = "?h1[length h := PyList new_elements]"
  have copy: "heap_get_transaction_history h self = (length h, ?h1)"
    by (simp add: heap_get_transaction_history_def list_copy_def alloc_def ds)
  have mut: "caller_mutates_list ?h1 (length h) new_elements = ?h2"
    by (simp add: caller_mutates_list_def list_at_def)
  have l2: "list_at ?h2 (transaction_history_attr self) = Some ds"
    using ds r by (simp add: list_at_def nth_append)
  have "dict_at ?h2 d = dict_at h d" if "d \<in> set ds" for d
    using read_list_elems [OF ds ts that] by (simp add: dict_at_def nth_append)
  then have "those (map (dict_at ?h2) ds) = those (map (dict_at h) ds)"
    by (rule those_map_cong)
  then have "read_list ?h2 (transaction_history_attr self) = Some ts"
    using l2 by (simp add: read_list_def dts)
  then show ?thesis
    by (simp only: copy fst_conv snd_conv mut) (simp add: account_value_def a)
qed

lemma repeated_get_transaction_history:
  assumes "account_value h self = Some a"
  shows "read_list (snd (heap_get_transaction_history
                           (snd (heap_get_transaction_history h self)) self))
                   (fst (heap_get_transaction_history h self)) = Some (transaction_history a)
       \<and> read_list (snd (heap_get_transaction_history
                           (snd (heap_get_transaction_history h self)) self))
                   (fst (heap_get_transaction_history
                           (snd (heap_get_transaction_history h self)) self))
           = Some (transaction_history a)
       \<and> account_value (snd (heap_get_transaction_history
                           (snd (heap_get_transaction_history h self)) self)) self = Some a"
proof -
  let ?h1 = "snd (heap_get_transaction_history h self)"
  let ?r1 = "fst (heap_get_transaction_history h self)"
  note copy = heap_get_transaction_history_copy [OF assms]
  have first: "read_list ?h1 ?r1 = Some (transaction_history a)"
      "account_value ?h1 self = Some a"
    using copy by blast+
  obtain obj where h2: "snd (heap_get_transaction_history ?h1 self) = ?h1 @ [obj]"
    by (simp add: heap_get_transaction_history_def list_copy_def alloc_def)
  have "read_list (?h1 @ [obj]) ?r1 = Some (transaction_history a)"
    using first(1) by (rule read_list_alloc)
  then have "read_list (snd (heap_get_transaction_history ?h1 self)) ?r1 =
      Some (transaction_history a)"
    by (simp only: h2)
  moreover note heap_get_transaction_history_copy [OF first(2)]
  ultimately show ?thesis by blast
qed

subsection \<open>Particular sums and differences\<close>

text \<open>
  The doubles that Python writes \<^verbatim>\<open>0.36\<close>, \<^verbatim>\<open>4.43\<close>, \<^verbatim>\<open>4.79\<close>, \<^verbatim>\<open>0.1\<close> and
  \<^verbatim>\<open>0.2\<close>, and the results of \<^verbatim>\<open>0.36 - 4.79\<close>, \<^verbatim>\<open>0.1 + 0.2\<close>, \<^verbatim>\<open>1e16 + 1.0\<close> and
  \<^verbatim>\<open>1.0 - 9007199254740994.0\<close>.
\<close>

lemma fsub_Finite: "fsub (Finite a) (Finite b) = round64 (a - b)"
  by (simp add: fsub_def)

lemma literal_036: "round64 (9 / 25) = Finite (3242591731706757 / 9007199254740992)"
  by (rule round64_eqI [where e = "- 2" and n = 6485183463413514])
     (simp_all add: round_half_even_eqI power_int_minus)

lemma literal_443: "round64 (443 / 100) = Finite (623467073414103 / 140737488355328)"
  by (rule round64_eqI [where e = 2 and n = 4987736587312824])
     (simp_all add: round_half_even_eqI power_int_minus)

lemma literal_479: "round64 (479 / 100) = Finite (5393060553776169 / 1125899906842624)"
  by (rule round64_eqI [where e = 2 and n = 5393060553776169])
     (simp_all add: round_half_even_eqI power_int_minus)

lemma literal_01: "round64 (1 / 10) = Finite (3602879701896397 / 36028797018963968)"
  by (rule round64_eqI [where e = "- 4" and n = 7205759403792794])
     (simp_all add: round_half_even_eqI power_int_minus)

lemma literal_02: "round64 (1 / 5) = Finite (3602879701896397 / 18014398509481984)"
  by (rule round64_eqI [where e = "- 3" and n = 7205759403792794])
     (simp_all add: round_half_even_eqI power_int_minus)

lemma difference_036_479:
  "fsub (Finite (3242591731706757 / 9007199254740992)) (Finite (5393060553776169 / 1125899906842624)) = Finite (- (623467073414103 / 140737488355328))"
  unfolding fsub_Finite
  by (rule round64_eqI [where e = 2 and n = 4987736587312824])
     (simp_all add: round_half_even_eqI power_int_minus)

lemma sum_01_02:
  "fadd (Finite (3602879701896397 / 36028797018963968)) (Finite (3602879701896397 / 18014398509481984)) = Finite (1351079888211149 / 4503599627370496)"
  unfolding fadd.simps
  by (rule round64_eqI [where e = "- 2" and n = 5404319552844596])
     (simp_all add: round_half_even_tie_up power_int_minus)

lemma sum_1e16_1:
  "fadd (Finite 10000000000000000) (Finite 1) = Finite 10000000000000000"
  unfolding fadd.simps
  by (rule round64_eqI [where e = 53 and n = 5000000000000000])
     (simp_all add: round_half_even_tie_down)

lemma difference_1e16_1:
  "fsub (Finite 10000000000000000) (Finite 1) = Finite 10000000000000000"
  unfolding fsub_Finite
  by (rule round64_eqI [where e = 53 and n = 5000000000000000])
     (simp_all add: round_half_even_tie_up)

lemma difference_1_2p53:
  "fsub (Finite 1) (Finite 9007199254740994) = Finite (- 9007199254740992)"
  unfolding fsub_Finite
  by (rule round64_eqI [where e = 53 and n = 4503599627370496])
     (simp_all add: round_half_even_tie_down)

subsection \<open>The claims\<close>

text \<open>
  Claim C1, as amended. \<open>BankAccount.withdraw\<close> with a positive amount works on floats:
  when the float difference \<open>balance - amount\<close> (the exact difference rounded to the
  nearest double) is at least \<open>- overdraft_limit\<close>, the balance becomes that float
  difference and is returned (a result equal to \<open>- overdraft_limit\<close> is allowed); when the
  float difference is below \<open>- overdraft_limit\<close>, the call fails with the overdraft error
  and the whole account, balance and history included, is as it was.
\<close>

theorem withdraw_positive_amount:
  assumes "flt (Finite 0) amt"
  shows "(fle (fneg (overdraft_limit self)) (fsub (balance self) amt) \<longrightarrow>
            fst (BankAccount_withdraw self amt now) = Inr (fsub (balance self) amt)
          \<and> balance (snd (BankAccount_withdraw self amt now)) = fsub (balance self) amt)
       \<and> (flt (fsub (balance self) amt) (fneg (overdraft_limit self)) \<longrightarrow>
            raises (fst (BankAccount_withdraw self amt now)) OverdraftExceeded
          \<and> snd (BankAccount_withdraw self amt now) = self)"
proof -
  have "\<not> fle amt (Finite 0)"
    using assms by (rule flt_imp_not_fle)
  then show ?thesis
    by (auto simp: BankAccount_withdraw_def record_transaction_def Let_def
             dest: fle_imp_not_flt)
qed

theorem withdraw_positive_amount_witness:
  "flt (Finite 0) (Finite 300)
   \<and> fst (BankAccount_withdraw (\<lparr>balance = Finite 100, transaction_history = [], overdraft_limit = Finite 200\<rparr>) (Finite 300) 7) = Inr (Finite (- 200))
   \<and> balance (snd (BankAccount_withdraw (\<lparr>balance = Finite 100, transaction_history = [], overdraft_limit = Finite 200\<rparr>) (Finite 300) 7)) = Finite (- 200)
   \<and> flt (Finite 0) (Finite 301)
   \<and> raises (fst (BankAccount_withdraw (\<lparr>balance = Finite 100, transaction_history = [], overdraft_limit = Finite 200\<rparr>) (Finite 301) 7)) OverdraftExceeded
   \<and> snd (BankAccount_withdraw (\<lparr>balance = Finite 100, transaction_history = [], overdraft_limit = Finite 200\<rparr>) (Finite 301) 7) = \<lparr>balance = Finite 100, transaction_history = [], overdraft_limit = Finite 200\<rparr>"
  using withdraw_positive_amount [of "Finite 300" "\<lparr>balance = Finite 100, transaction_history = [], overdraft_limit = Finite 200\<rparr>" 7]
        withdraw_positive_amount [of "Finite 301" "\<lparr>balance = Finite 100, transaction_history = [], overdraft_limit = Finite 200\<rparr>" 7]
  by (simp add: fsub_def)

text \<open>
  The claim C1 as stated, with the exact difference, is false at two inputs.
  \<^verbatim>\<open>BankAccount(1e16).withdraw(1.0)\<close> succeeds, is recorded, and leaves the balance at
  \<open>10 ^ 16\<close>: nothing has been subtracted. For
  \<^verbatim>\<open>BankAccount(0.36, 4.43).withdraw(4.79)\<close> the exact difference of the balance and
  the amount is below minus the limit, by \<open>3 / 2 ^ 53\<close>, yet the withdrawal succeeds, and
  the new balance is minus the limit, not the exact difference.
\<close>

theorem withdraw_positive_amount_counterexample:
  "flt (Finite 0) (Finite 1)
   \<and> BankAccount_withdraw
        \<lparr>balance = Finite 10000000000000000,
         transaction_history = [\<lparr>txn_type = ''initial deposit'',
                                 amount = Finite 10000000000000000, timestamp = 0,
                                 resulting_balance = Finite 10000000000000000\<rparr>],
         overdraft_limit = Finite 0\<rparr> (Finite 1) 1
     = (Inr (Finite 10000000000000000),
        \<lparr>balance = Finite 10000000000000000,
         transaction_history = [\<lparr>txn_type = ''initial deposit'',
                                 amount = Finite 10000000000000000, timestamp = 0,
                                 resulting_balance = Finite 10000000000000000\<rparr>,
                                \<lparr>txn_type = ''withdrawal'', amount = Finite 1, timestamp = 1,
                                 resulting_balance = Finite 10000000000000000\<rparr>],
         overdraft_limit = Finite 0\<rparr>)
   \<and> Finite 10000000000000000 \<noteq> Finite (10000000000000000 - 1)
   \<and> round64 (9 / 25) = Finite (3242591731706757 / 9007199254740992)
   \<and> round64 (443 / 100) = Finite (623467073414103 / 140737488355328)
   \<and> round64 (479 / 100) = Finite (5393060553776169 / 1125899906842624)
   \<and> (3242591731706757 / 9007199254740992 :: rat) - 5393060553776169 / 1125899906842624 < - (623467073414103 / 140737488355328)
   \<and> BankAccount_withdraw
        \<lparr>balance = Finite (3242591731706757 / 9007199254740992),
         transaction_history = [\<lparr>txn_type = ''initial deposit'', amount = Finite (3242591731706757 / 9007199254740992),
                                 timestamp = 0, resulting_balance = Finite (3242591731706757 / 9007199254740992)\<rparr>],
         overdraft_limit = Finite (623467073414103 / 140737488355328)\<rparr> (Finite (5393060553776169 / 1125899906842624)) 1
     = (Inr (Finite (- (623467073414103 / 140737488355328))),
        \<lparr>balance = Finite (- (623467073414103 / 140737488355328)),
         transaction_history = [\<lparr>txn_type = ''initial deposit'', amount = Finite (3242591731706757 / 9007199254740992),
                                 timestamp = 0, resulting_balance = Finite (3242591731706757 / 9007199254740992)\<rparr>,
                                \<lparr>txn_type = ''withdrawal'', amount = Finite (5393060553776169 / 1125899906842624),
                                 timestamp = 1, resulting_balance = Finite (- (623467073414103 / 140737488355328))\<rparr>],
         overdraft_limit = Finite (623467073414103 / 140737488355328)\<rparr>)"
  by (simp add: literal_036 literal_443 literal_479 difference_036_479 difference_1e16_1
                BankAccount_withdraw_def record_transaction_def Let_def)

text \<open>
  Claim C2, as amended. \<open>BankAccount.deposit\<close> with a positive amount: the balance
  becomes the float sum \<open>balance + amount\<close> (the exact sum rounded to the nearest double);
  the history is the old history followed by exactly one entry, of type \<open>deposit\<close>,
  whose amount is the deposited amount and whose resulting balance is the new balance;
  the new balance is returned.
\<close>

theorem deposit_positive_amount:
  assumes "flt (Finite 0) amt"
  shows "balance (snd (BankAccount_deposit self amt now)) = fadd (balance self) amt
       \<and> transaction_history (snd (BankAccount_deposit self amt now)) =
           transaction_history self @
             [\<lparr>txn_type = ''deposit'', amount = amt, timestamp = now,
               resulting_balance = balance (snd (BankAccount_deposit self amt now))\<rparr>]
       \<and> fst (BankAccount_deposit self amt now) =
           Inr (balance (snd (BankAccount_deposit self amt now)))"
proof -
  have "\<not> fle amt (Finite 0)"
    using assms by (rule flt_imp_not_fle)
  then show ?thesis
    by (simp add: BankAccount_deposit_def record_transaction_def Let_def)
qed

theorem deposit_positive_amount_witness:
  "flt (Finite 0) (Finite 50)
   \<and> BankAccount_deposit
        (\<lparr>balance = Finite 100,
         transaction_history = [\<lparr>txn_type = ''initial deposit'', amount = Finite 100,
                                 timestamp = 0, resulting_balance = Finite 100\<rparr>],
         overdraft_limit = Finite 200\<rparr>) (Finite 50) 4
     = (Inr (Finite 150),
        \<lparr>balance = Finite 150,
         transaction_history = [\<lparr>txn_type = ''initial deposit'', amount = Finite 100,
                                 timestamp = 0, resulting_balance = Finite 100\<rparr>,
                                \<lparr>txn_type = ''deposit'', amount = Finite 50,
                                 timestamp = 4, resulting_balance = Finite 150\<rparr>],
         overdraft_limit = Finite 200\<rparr>)"
  using deposit_positive_amount [of "Finite 50" "\<lparr>balance = Finite 100,
         transaction_history = [\<lparr>txn_type = ''initial deposit'', amount = Finite 100,
                                 timestamp = 0, resulting_balance = Finite 100\<rparr>],
         overdraft_limit = Finite 200\<rparr>" 4]
  by (simp add: BankAccount_deposit_def record_transaction_def Let_def)

text \<open>
  The claim C2 as stated, with the exact sum, is false for
  \<^verbatim>\<open>BankAccount(1e16).deposit(1.0)\<close>: the amount is positive, the deposit succeeds and is
  recorded, and the balance is still \<open>10 ^ 16\<close>, not \<open>10 ^ 16 + 1\<close>.
\<close>

theorem deposit_positive_amount_counterexample:
  "flt (Finite 0) (Finite 1)
   \<and> BankAccount_deposit
        \<lparr>balance = Finite 10000000000000000,
         transaction_history = [\<lparr>txn_type = ''initial deposit'',
                                 amount = Finite 10000000000000000, timestamp = 0,
                                 resulting_balance = Finite 10000000000000000\<rparr>],
         overdraft_limit = Finite 0\<rparr> (Finite 1) 1
     = (Inr (Finite 10000000000000000),
        \<lparr>balance = Finite 10000000000000000,
         transaction_history = [\<lparr>txn_type = ''initial deposit'',
                                 amount = Finite 10000000000000000, timestamp = 0,
                                 resulting_balance = Finite 10000000000000000\<rparr>,
                                \<lparr>txn_type = ''deposit'', amount = Finite 1, timestamp = 1,
                                 resulting_balance = Finite 10000000000000000\<rparr>],
         overdraft_limit = Finite 0\<rparr>)
   \<and> Finite 10000000000000000 \<noteq> Finite (10000000000000000 + 1)"
  by (simp add: sum_1e16_1 BankAccount_deposit_def record_transaction_def Let_def
           del: fadd.simps)

text \<open>
  Claim C3. For an amount that is zero or negative, the two methods and the two
  module-level functions all fail with the invalid-argument error, and after a failed
  method call the account (balance, history, limit) is the account before the call.
\<close>

theorem nonpositive_amount_rejected:
  assumes "fle amt (Finite 0)"
  shows "raises (fst (BankAccount_deposit self amt now)) InvalidArgument
       \<and> snd (BankAccount_deposit self amt now) = self
       \<and> raises (fst (BankAccount_withdraw self amt now)) InvalidArgument
       \<and> snd (BankAccount_withdraw self amt now) = self
       \<and> raises (deposit b amt) InvalidArgument
       \<and> raises (withdraw b amt l) InvalidArgument"
  using assms
  by (simp add: BankAccount_deposit_def BankAccount_withdraw_def deposit_def withdraw_def)

theorem nonpositive_amount_rejected_witness:
  "fle (Finite (- 50)) (Finite 0)
   \<and> raises (fst (BankAccount_deposit (\<lparr>balance = Finite 100, transaction_history = [], overdraft_limit = Finite 200\<rparr>) (Finite (- 50)) 1)) InvalidArgument
   \<and> snd (BankAccount_deposit (\<lparr>balance = Finite 100, transaction_history = [], overdraft_limit = Finite 200\<rparr>) (Finite (- 50)) 1) = \<lparr>balance = Finite 100, transaction_history = [], overdraft_limit = Finite 200\<rparr>
   \<and> raises (fst (BankAccount_withdraw (\<lparr>balance = Finite 100, transaction_history = [], overdraft_limit = Finite 200\<rparr>) (Finite (- 50)) 1)) InvalidArgument
   \<and> snd (BankAccount_withdraw (\<lparr>balance = Finite 100, transaction_history = [], overdraft_limit = Finite 200\<rparr>) (Finite (- 50)) 1) = \<lparr>balance = Finite 100, transaction_history = [], overdraft_limit = Finite 200\<rparr>
   \<and> raises (deposit (Finite 100) (Finite (- 50))) InvalidArgument
   \<and> raises (withdraw (Finite 100) (Finite (- 50)) (Finite 200)) InvalidArgument"
  using nonpositive_amount_rejected
          [of "Finite (- 50)" "\<lparr>balance = Finite 100, transaction_history = [], overdraft_limit = Finite 200\<rparr>" 1 "Finite 100" "Finite 200"]
  by simp

text \<open>
  Claim C4, as amended. For every account constructed successfully and reached by any
  sequence of deposit and withdraw calls, failed ones included, the limit is not negative
  and is the one set by the constructor. When moreover the initial balance is not NaN,
  the limit passed is a double and the amounts of the calls are all finite, the balance
  is a number not below \<open>- overdraft_limit\<close>. The sequence is arbitrary, so this holds
  after every prefix of a session.
\<close>

theorem reachable_account_invariant:
  assumes "BankAccount_init b l now = Inr account"
  shows "fle (Finite 0) (overdraft_limit (snd (run_stateful account cs)))
       \<and> overdraft_limit (snd (run_stateful account cs)) = overdraft_limit account
       \<and> (b \<noteq> NaN \<and> is_double l \<and> finite_amounts cs \<longrightarrow>
            fle (fneg (overdraft_limit (snd (run_stateful account cs))))
                (balance (snd (run_stateful account cs))))"
proof -
  from assms have nonneg: "\<not> flt b (Finite 0)" and acc: "balance account = b"
    and lim: "overdraft_limit account = py_max (Finite 0) l"
    by (auto simp: init_cases split: if_splits)
  have limit: "fle (Finite 0) (overdraft_limit account)"
    unfolding lim by (rule py_max_zero_nonneg)
  have "fle (fneg (overdraft_limit account)) (balance (snd (run_stateful account cs)))"
    if "b \<noteq> NaN" "is_double l" "finite_amounts cs"
  proof -
    have "fle (Finite 0) b"
      using nonneg that(1) by (intro not_flt_imp_fle) simp_all
    with limit have start: "fle (fneg (overdraft_limit account)) (balance account)"
      unfolding acc by (cases "overdraft_limit account"; cases b) simp_all
    have "is_double (overdraft_limit account)"
      unfolding lim using that(2) by (rule py_max_zero_is_double)
    with start show ?thesis
      using that(3) by (rule run_stateful_floor)
  qed
  then show ?thesis
    using limit by (simp add: run_stateful_limit)
qed

theorem reachable_account_invariant_witness:
  "BankAccount_init (Finite 100) (Finite 200) 0 = Inr (\<lparr>balance = Finite 100,
         transaction_history = [\<lparr>txn_type = ''initial deposit'', amount = Finite 100,
                                 timestamp = 0, resulting_balance = Finite 100\<rparr>],
         overdraft_limit = Finite 200\<rparr>)
   \<and> Finite 100 \<noteq> NaN \<and> is_double (Finite 200)
   \<and> finite_amounts
        [(Withdraw (Finite 250), 1), (Withdraw (Finite 100), 2), (Deposit (Finite (- 5)), 3)]
   \<and> fle (fneg (overdraft_limit (snd (run_stateful (\<lparr>balance = Finite 100,
         transaction_history = [\<lparr>txn_type = ''initial deposit'', amount = Finite 100,
                                 timestamp = 0, resulting_balance = Finite 100\<rparr>],
         overdraft_limit = Finite 200\<rparr>)
        [(Withdraw (Finite 250), 1), (Withdraw (Finite 100), 2),
         (Deposit (Finite (- 5)), 3)]))))
      (balance (snd (run_stateful (\<lparr>balance = Finite 100,
         transaction_history = [\<lparr>txn_type = ''initial deposit'', amount = Finite 100,
                                 timestamp = 0, resulting_balance = Finite 100\<rparr>],
         overdraft_limit = Finite 200\<rparr>)
        [(Withdraw (Finite 250), 1), (Withdraw (Finite 100), 2),
         (Deposit (Finite (- 5)), 3)])))
   \<and> balance (snd (run_stateful (\<lparr>balance = Finite 100,
         transaction_history = [\<lparr>txn_type = ''initial deposit'', amount = Finite 100,
                                 timestamp = 0, resulting_balance = Finite 100\<rparr>],
         overdraft_limit = Finite 200\<rparr>)
        [(Withdraw (Finite 250), 1), (Withdraw (Finite 100), 2), (Deposit (Finite (- 5)), 3)]))
      = Finite (- 150)
   \<and> overdraft_limit (snd (run_stateful (\<lparr>balance = Finite 100,
         transaction_history = [\<lparr>txn_type = ''initial deposit'', amount = Finite 100,
                                 timestamp = 0, resulting_balance = Finite 100\<rparr>],
         overdraft_limit = Finite 200\<rparr>)
        [(Withdraw (Finite 250), 1), (Withdraw (Finite 100), 2), (Deposit (Finite (- 5)), 3)]))
      = Finite 200"
proof -
  have init: "BankAccount_init (Finite 100) (Finite 200) 0 = Inr (\<lparr>balance = Finite 100,
         transaction_history = [\<lparr>txn_type = ''initial deposit'', amount = Finite 100,
                                 timestamp = 0, resulting_balance = Finite 100\<rparr>],
         overdraft_limit = Finite 200\<rparr>)"
    by (simp add: init_cases py_max_def)
  have fin: "finite_amounts
      [(Withdraw (Finite 250), 1), (Withdraw (Finite 100), 2), (Deposit (Finite (- 5)), 3)]"
    by (simp add: finite_amounts_def is_finite_def)
  have dbl: "is_double (Finite 200)"
    by (simp add: is_double_def)
  show ?thesis
    using init fin dbl
      reachable_account_invariant
        [OF init, of "[(Withdraw (Finite 250), 1), (Withdraw (Finite 100), 2),
                       (Deposit (Finite (- 5)), 3)]"]
    by (simp add: BankAccount_deposit_def BankAccount_withdraw_def record_transaction_def
                  fsub_def Let_def)
qed

text \<open>
  The claim C4 as stated is false on floats. \<^verbatim>\<open>BankAccount(nan, 0)\<close> is constructed
  with a NaN balance; \<^verbatim>\<open>deposit(nan)\<close> on \<^verbatim>\<open>BankAccount(100, 200)\<close> passes the test
  \<^verbatim>\<open>amount <= 0\<close> and leaves a NaN balance; \<^verbatim>\<open>deposit(inf)\<close> followed by
  \<^verbatim>\<open>withdraw(inf)\<close> passes both tests and leaves \<^verbatim>\<open>inf - inf\<close>, NaN again. In each case
  \<open>balance \<ge> - overdraft_limit\<close> is false afterwards.
\<close>

theorem reachable_account_invariant_counterexample:
  "stateful_session NaN (Finite 0) 0 [] =
     Inr ([], \<lparr>balance = NaN, transaction_history = [], overdraft_limit = Finite 0\<rparr>)
   \<and> \<not> fle (fneg (Finite 0)) NaN
   \<and> fst (projr (stateful_session (Finite 100) (Finite 200) 0 [(Deposit NaN, 1)])) = [Inr NaN]
   \<and> balance (snd (projr (stateful_session (Finite 100) (Finite 200) 0 [(Deposit NaN, 1)])))
      = NaN
   \<and> overdraft_limit
        (snd (projr (stateful_session (Finite 100) (Finite 200) 0 [(Deposit NaN, 1)])))
      = Finite 200
   \<and> \<not> fle (fneg (Finite 200)) NaN
   \<and> fst (projr (stateful_session (Finite 100) (Finite 200) 0
              [(Deposit PInf, 1), (Withdraw PInf, 2)])) = [Inr PInf, Inr NaN]
   \<and> balance (snd (projr (stateful_session (Finite 100) (Finite 200) 0
              [(Deposit PInf, 1), (Withdraw PInf, 2)]))) = NaN
   \<and> overdraft_limit (snd (projr (stateful_session (Finite 100) (Finite 200) 0
              [(Deposit PInf, 1), (Withdraw PInf, 2)]))) = Finite 200"
  by (simp add: stateful_session_def init_cases py_max_def
                BankAccount_deposit_def BankAccount_withdraw_def record_transaction_def
                fsub_def Let_def)

text \<open>
  Claim C5. The constructor fails, with the invalid-argument error, exactly when the
  initial balance is negative. When it succeeds the stored limit is
  \<open>max(0, overdraft_limit)\<close>, and the history holds exactly one entry of type
  \<open>initial deposit\<close> with amount and resulting balance equal to the initial balance when
  that balance is positive, and is empty when it is zero.
\<close>

theorem init_spec:
  "(raises (BankAccount_init b l now) InvalidArgument \<longleftrightarrow> flt b (Finite 0))
   \<and> (isl (BankAccount_init b l now) \<longleftrightarrow> flt b (Finite 0))
   \<and> (\<not> flt b (Finite 0) \<longrightarrow>
        overdraft_limit (projr (BankAccount_init b l now)) = py_max (Finite 0) l
      \<and> balance (projr (BankAccount_init b l now)) = b)
   \<and> (flt (Finite 0) b \<longrightarrow>
        transaction_history (projr (BankAccount_init b l now)) =
          [\<lparr>txn_type = ''initial deposit'', amount = b, timestamp = now,
            resulting_balance = b\<rparr>])
   \<and> (b = Finite 0 \<longrightarrow> transaction_history (projr (BankAccount_init b l now)) = [])
   \<and> py_max (Finite 0) (Finite q) = Finite (max 0 q)"
proof -
  have "flt (Finite 0) b \<Longrightarrow> \<not> flt b (Finite 0)"
    by (cases b) simp_all
  then show ?thesis
    by (auto simp: init_cases py_max_def)
qed

theorem init_spec_witness:
  "raises (BankAccount_init (Finite (- 1)) (Finite 200) 0) InvalidArgument
   \<and> isl (BankAccount_init (Finite (- 1)) (Finite 200) 0)
   \<and> \<not> isl (BankAccount_init (Finite 100) (Finite (- 20)) 0)
   \<and> overdraft_limit (projr (BankAccount_init (Finite 100) (Finite (- 20)) 0)) = Finite 0
   \<and> transaction_history (projr (BankAccount_init (Finite 100) (Finite (- 20)) 0)) =
        [\<lparr>txn_type = ''initial deposit'', amount = Finite 100, timestamp = 0,
          resulting_balance = Finite 100\<rparr>]
   \<and> \<not> isl (BankAccount_init (Finite 0) (Finite 200) 0)
   \<and> overdraft_limit (projr (BankAccount_init (Finite 0) (Finite 200) 0)) = Finite 200
   \<and> transaction_history (projr (BankAccount_init (Finite 0) (Finite 200) 0)) = []"
  using init_spec [of "Finite (- 1)" "Finite 200" 0 200]
        init_spec [of "Finite 100" "Finite (- 20)" 0 "- 20"]
        init_spec [of "Finite 0" "Finite 200" 0 200]
  by simp

text \<open>
  Claim C6, as amended. For an initial balance that the constructor accepts (one that is
  not negative), a sequence of stateless calls made with the limit the account stores,
  \<open>max(0, overdraft_limit)\<close> (the given limit itself whenever that is not negative), has
  the same outcome at every step, error or returned balance, and the same final balance
  as the same sequence of method calls on the account constructed from that balance and
  limit. The claim as stated, with the given limit passed unchanged to the stateless
  calls, fails for a negative limit: the constructor clamps it to zero and the
  module-level \<open>withdraw\<close> does not.
\<close>

theorem stateless_matches_stateful:
  assumes "\<not> flt b (Finite 0)"
  shows "\<not> isl (stateful_session b l now cs)
       \<and> fst (projr (stateful_session b l now cs)) =
           fst (run_stateless b (py_max (Finite 0) l) (map fst cs))
       \<and> BankAccount_get_balance (snd (projr (stateful_session b l now cs))) =
           get_balance (snd (run_stateless b (py_max (Finite 0) l) (map fst cs)))"
proof -
  obtain account where init: "BankAccount_init b l now = Inr account"
    and bal: "balance account = b" and lim: "overdraft_limit account = py_max (Finite 0) l"
    using assms by (simp add: init_cases)
  have "run_stateless b (py_max (Finite 0) l) (map fst cs) =
          (fst (run_stateful account cs), balance (snd (run_stateful account cs)))"
    using run_stateful_simulates [of account cs] by (simp add: bal lim)
  then show ?thesis
    by (simp add: stateful_session_def init BankAccount_get_balance_def get_balance_def)
qed

theorem stateless_matches_stateful_witness:
  "\<not> flt (Finite 100) (Finite 0)
   \<and> py_max (Finite 0) (Finite 200) = Finite 200
   \<and> \<not> isl (stateful_session (Finite 100) (Finite 200) 0
              [(Deposit (Finite 50), 1), (Withdraw (Finite 30), 2),
               (Withdraw (Finite 250), 3), (Withdraw (Finite 100), 4)])
   \<and> fst (projr (stateful_session (Finite 100) (Finite 200) 0
              [(Deposit (Finite 50), 1), (Withdraw (Finite 30), 2),
               (Withdraw (Finite 250), 3), (Withdraw (Finite 100), 4)]))
      = [Inr (Finite 150), Inr (Finite 120), Inr (Finite (- 130)),
         Inl (Withdrawal_would_exceed_overdraft_limit_of (Finite 200))]
   \<and> BankAccount_get_balance (snd (projr (stateful_session (Finite 100) (Finite 200) 0
              [(Deposit (Finite 50), 1), (Withdraw (Finite 30), 2),
               (Withdraw (Finite 250), 3), (Withdraw (Finite 100), 4)])))
      = Finite (- 130)
   \<and> run_stateless (Finite 100) (Finite 200)
        [Deposit (Finite 50), Withdraw (Finite 30), Withdraw (Finite 250),
         Withdraw (Finite 100)]
      = ([Inr (Finite 150), Inr (Finite 120), Inr (Finite (- 130)),
          Inl (Withdrawal_would_exceed_overdraft_limit_of (Finite 200))],
         Finite (- 130))"
proof -
  have stateless:
    "run_stateless (Finite 100) (Finite 200)
        [Deposit (Finite 50), Withdraw (Finite 30), Withdraw (Finite 250),
         Withdraw (Finite 100)]
      = ([Inr (Finite 150), Inr (Finite 120), Inr (Finite (- 130)),
          Inl (Withdrawal_would_exceed_overdraft_limit_of (Finite 200))],
         Finite (- 130))"
    by (simp add: deposit_def withdraw_def fsub_def Let_def)
  have limit: "py_max (Finite 0) (Finite 200) = Finite 200"
    by (simp add: py_max_def)
  show ?thesis
    using stateless limit
      stateless_matches_stateful
        [of "Finite 100" "Finite 200" 0
            "[(Deposit (Finite 50), 1), (Withdraw (Finite 30), 2),
              (Withdraw (Finite 250), 3), (Withdraw (Finite 100), 4)]"]
    by (simp add: get_balance_def)
qed

text \<open>
  The claim C6 as stated is false at initial balance 10, limit \<open>- 10\<close> and the single
  call \<open>withdraw 5\<close>: the account is constructed with limit 0 and the withdrawal succeeds,
  leaving 5, while the stateless call with limit \<open>- 10\<close> fails and leaves 10.
\<close>

theorem stateless_matches_stateful_counterexample:
  "stateful_session (Finite 10) (Finite (- 10)) 0 [(Withdraw (Finite 5), 1)] =
     Inr ([Inr (Finite 5)],
          \<lparr>balance = Finite 5,
           transaction_history =
             [\<lparr>txn_type = ''initial deposit'', amount = Finite 10, timestamp = 0,
               resulting_balance = Finite 10\<rparr>,
              \<lparr>txn_type = ''withdrawal'', amount = Finite 5, timestamp = 1,
               resulting_balance = Finite 5\<rparr>],
           overdraft_limit = Finite 0\<rparr>)
   \<and> run_stateless (Finite 10) (Finite (- 10)) [Withdraw (Finite 5)] =
       ([Inl (Withdrawal_would_exceed_overdraft_limit_of (Finite (- 10)))], Finite 10)
   \<and> fst (projr (stateful_session (Finite 10) (Finite (- 10)) 0 [(Withdraw (Finite 5), 1)])) \<noteq>
       fst (run_stateless (Finite 10) (Finite (- 10)) (map fst [(Withdraw (Finite 5), 1::nat)]))
   \<and> BankAccount_get_balance
        (snd (projr (stateful_session (Finite 10) (Finite (- 10)) 0 [(Withdraw (Finite 5), 1)]))) \<noteq>
       get_balance
        (snd (run_stateless (Finite 10) (Finite (- 10)) (map fst [(Withdraw (Finite 5), 1::nat)])))"
  by (simp add: stateful_session_def init_cases py_max_def BankAccount_withdraw_def
                withdraw_def record_transaction_def BankAccount_get_balance_def
                get_balance_def fsub_def Let_def)

text \<open>
  Claim C7. For an account constructed successfully and any session of calls on it:
  the history after a longer session starts with the whole history after any shorter
  one (entries are only appended, never reordered, removed or changed); its length is
  1 when the initial balance was positive and 0 otherwise, plus the number of calls that
  succeeded; \<open>transaction_count\<close> is the length of the history; the resulting balances of
  the entries are, in order, the initial balance (when positive) followed by the balance
  each successful call left and returned; and the newest entry, when there is one, shows
  the current balance.
\<close>

theorem history_invariants:
  assumes "BankAccount_init b l now = Inr account"
  shows "take (length (transaction_history (snd (run_stateful account cs))))
              (transaction_history (snd (run_stateful account (cs @ later)))) =
           transaction_history (snd (run_stateful account cs))
       \<and> length (transaction_history (snd (run_stateful account cs))) =
           (if flt (Finite 0) b then 1 else 0)
             + length (returned (fst (run_stateful account cs)))
       \<and> transaction_count (snd (run_stateful account cs)) =
           length (transaction_history (snd (run_stateful account cs)))
       \<and> map resulting_balance (transaction_history (snd (run_stateful account cs))) =
           (if flt (Finite 0) b then [b] else []) @ returned (fst (run_stateful account cs))
       \<and> last_entry_current (snd (run_stateful account cs))"
proof -
  from assms have bal: "balance account = b"
    and hist: "transaction_history account =
         (if flt (Finite 0) b
          then [\<lparr>txn_type = ''initial deposit'', amount = b, timestamp = now,
                 resulting_balance = b\<rparr>] else [])"
    by (auto simp: init_cases split: if_splits)
  let ?s = "snd (run_stateful account cs)"
  obtain zs where "transaction_history (snd (run_stateful ?s later)) =
      transaction_history ?s @ zs"
    using run_stateful_appends [of ?s later] by blast
  then have prefix: "take (length (transaction_history ?s))
      (transaction_history (snd (run_stateful account (cs @ later)))) = transaction_history ?s"
    by (simp add: run_stateful_append)
  obtain ys where ys: "transaction_history ?s = transaction_history account @ ys"
      "map resulting_balance ys = returned (fst (run_stateful account cs))"
    using run_stateful_appends [of account cs] by blast
  have balances: "map resulting_balance (transaction_history ?s) =
      (if flt (Finite 0) b then [b] else []) @ returned (fst (run_stateful account cs))"
    using ys by (simp add: hist)
  have "length (map resulting_balance (transaction_history ?s)) =
      length ((if flt (Finite 0) b then [b] else [])
                @ returned (fst (run_stateful account cs)))"
    by (simp only: balances)
  then have len: "length (transaction_history ?s) =
      (if flt (Finite 0) b then 1 else 0) + length (returned (fst (run_stateful account cs)))"
    by simp
  have "last_entry_current account"
    by (simp add: last_entry_current_def hist bal)
  then have newest: "last_entry_current ?s"
    by (rule run_stateful_last_entry)
  show ?thesis
    using prefix len balances newest by (simp add: transaction_count_def)
qed

theorem history_invariants_witness:
  "BankAccount_init (Finite 100) (Finite 200) 0 = Inr (\<lparr>balance = Finite 100,
         transaction_history = [\<lparr>txn_type = ''initial deposit'', amount = Finite 100,
                                 timestamp = 0, resulting_balance = Finite 100\<rparr>],
         overdraft_limit = Finite 200\<rparr>)
   \<and> transaction_count (snd (run_stateful (\<lparr>balance = Finite 100,
         transaction_history = [\<lparr>txn_type = ''initial deposit'', amount = Finite 100,
                                 timestamp = 0, resulting_balance = Finite 100\<rparr>],
         overdraft_limit = Finite 200\<rparr>)
        [(Deposit (Finite 50), 1), (Withdraw (Finite 500), 2), (Withdraw (Finite 30), 3)])) = 3
   \<and> map resulting_balance (transaction_history (snd (run_stateful (\<lparr>balance = Finite 100,
         transaction_history = [\<lparr>txn_type = ''initial deposit'', amount = Finite 100,
                                 timestamp = 0, resulting_balance = Finite 100\<rparr>],
         overdraft_limit = Finite 200\<rparr>)
        [(Deposit (Finite 50), 1), (Withdraw (Finite 500), 2), (Withdraw (Finite 30), 3)])))
      = [Finite 100, Finite 150, Finite 120]
   \<and> last_entry_current (snd (run_stateful (\<lparr>balance = Finite 100,
         transaction_history = [\<lparr>txn_type = ''initial deposit'', amount = Finite 100,
                                 timestamp = 0, resulting_balance = Finite 100\<rparr>],
         overdraft_limit = Finite 200\<rparr>)
        [(Deposit (Finite 50), 1), (Withdraw (Finite 500), 2), (Withdraw (Finite 30), 3)]))"
proof -
  have init: "BankAccount_init (Finite 100) (Finite 200) 0 = Inr (\<lparr>balance = Finite 100,
         transaction_history = [\<lparr>txn_type = ''initial deposit'', amount = Finite 100,
                                 timestamp = 0, resulting_balance = Finite 100\<rparr>],
         overdraft_limit = Finite 200\<rparr>)"
    by (simp add: init_cases py_max_def)
  have run: "run_stateful (\<lparr>balance = Finite 100,
         transaction_history = [\<lparr>txn_type = ''initial deposit'', amount = Finite 100,
                                 timestamp = 0, resulting_balance = Finite 100\<rparr>],
         overdraft_limit = Finite 200\<rparr>)
        [(Deposit (Finite 50), 1), (Withdraw (Finite 500), 2), (Withdraw (Finite 30), 3)] =
      ([Inr (Finite 150), Inl (Withdrawal_would_exceed_overdraft_limit_of (Finite 200)),
        Inr (Finite 120)],
       \<lparr>balance = Finite 120,
        transaction_history =
          [\<lparr>txn_type = ''initial deposit'', amount = Finite 100, timestamp = 0,
            resulting_balance = Finite 100\<rparr>,
           \<lparr>txn_type = ''deposit'', amount = Finite 50, timestamp = 1,
            resulting_balance = Finite 150\<rparr>,
           \<lparr>txn_type = ''withdrawal'', amount = Finite 30, timestamp = 3,
            resulting_balance = Finite 120\<rparr>],
        overdraft_limit = Finite 200\<rparr>)"
    by (simp add: BankAccount_deposit_def BankAccount_withdraw_def record_transaction_def
                  fsub_def Let_def)
  show ?thesis
    using init
      history_invariants
        [OF init, of "[(Deposit (Finite 50), 1), (Withdraw (Finite 500), 2),
                       (Withdraw (Finite 30), 3)]" "[]"]
    unfolding append_Nil2 run
    by simp
qed

text \<open>
  Claim C8. \<open>get_transaction_history\<close> is to return a copy through which no mutation by
  the caller reaches the account. The list is copied (\<open>caller_list_mutation_frame\<close>: no
  change of the returned list changes the account) and repeated calls show the same
  entries and leave the account as it is (\<open>repeated_get_transaction_history\<close>), but the
  copy holds the account's own dictionary objects. After
  \<^verbatim>\<open>acct = BankAccount(100, 200); hist = acct.get_transaction_history();
  hist[0]["amount"] = 999\<close> the account's own history shows the amount 999 for its initial
  deposit of 100.
\<close>

theorem shallow_copy_shares_transactions:
  "read_list (snd (heap_init [] (Finite 100) (Finite 200) 0)) 0 =
     Some [\<lparr>txn_type = ''initial deposit'', amount = Finite 100, timestamp = 0,
            resulting_balance = Finite 100\<rparr>]
   \<and> history_after_caller_assignment (Finite 100) (Finite 200) 0 0 (Finite 999) =
     Some [\<lparr>txn_type = ''initial deposit'', amount = Finite 999, timestamp = 0,
            resulting_balance = Finite 100\<rparr>]"
  by (simp add: history_after_caller_assignment_def heap_init_def heap_record_transaction_def
                alloc_def list_append_def list_at_def dict_at_def py_max_def
                heap_get_transaction_history_def list_copy_def list_getitem_def
                dict_set_amount_def read_list_def Let_def)

text \<open>
  Claim C9, as amended. The module-level functions work on floats, for every balance and
  every limit as it is passed (\<open>withdraw\<close> does not clamp a negative limit): \<open>deposit\<close>
  fails with the invalid-argument error when \<open>amount \<le> 0\<close> and otherwise returns the float
  sum \<open>balance + amount\<close>; \<open>withdraw\<close> fails with the invalid-argument error when
  \<open>amount \<le> 0\<close>, otherwise with the overdraft error when the float difference
  \<open>balance - amount\<close> is below \<open>- overdraft_limit\<close>, and otherwise returns that float
  difference; \<open>get_balance\<close> returns its argument. A float sum or difference is the exact
  one rounded to the nearest double.
\<close>

theorem pure_functions_spec:
  "(fle a (Finite 0) \<longrightarrow> raises (deposit b a) InvalidArgument)
   \<and> (\<not> fle a (Finite 0) \<longrightarrow> deposit b a = Inr (fadd b a))
   \<and> (fle a (Finite 0) \<longrightarrow> raises (withdraw b a l) InvalidArgument)
   \<and> (\<not> fle a (Finite 0) \<and> flt (fsub b a) (fneg l) \<longrightarrow>
        raises (withdraw b a l) OverdraftExceeded)
   \<and> (\<not> fle a (Finite 0) \<and> \<not> flt (fsub b a) (fneg l) \<longrightarrow>
        withdraw b a l = Inr (fsub b a))
   \<and> get_balance b = b
   \<and> fadd (Finite x) (Finite y) = round64 (x + y)
   \<and> fsub (Finite x) (Finite y) = round64 (x - y)"
  by (simp add: deposit_def withdraw_def get_balance_def fsub_def)

theorem pure_functions_spec_witness:
  "raises (deposit (Finite 100) (Finite (- 50))) InvalidArgument
   \<and> deposit (Finite 100) (Finite 50) = Inr (Finite 150)
   \<and> raises (withdraw (Finite 100) (Finite 0) (Finite 200)) InvalidArgument
   \<and> raises (withdraw (Finite 100) (Finite 350) (Finite 200)) OverdraftExceeded
   \<and> raises (withdraw (Finite 100) (Finite 5) (Finite (- 100))) OverdraftExceeded
   \<and> withdraw (Finite 100) (Finite 250) (Finite 200) = Inr (Finite (- 150))
   \<and> withdraw (Finite 100) (Finite 300) (Finite 200) = Inr (Finite (- 200))
   \<and> get_balance (Finite 100) = Finite 100"
  using pure_functions_spec [of "Finite (- 50)" "Finite 100" "Finite 200"]
        pure_functions_spec [of "Finite 50" "Finite 100" "Finite 200" 100 50]
        pure_functions_spec [of "Finite 0" "Finite 100" "Finite 200"]
        pure_functions_spec [of "Finite 350" "Finite 100" "Finite 200" 100 350]
        pure_functions_spec [of "Finite 5" "Finite 100" "Finite (- 100)" 100 5]
        pure_functions_spec [of "Finite 250" "Finite 100" "Finite 200" 100 250]
        pure_functions_spec [of "Finite 300" "Finite 100" "Finite 200" 100 300]
  by (simp add: fsub_def)

text \<open>
  The claim C9 as stated, with exact sums and differences, is false at two inputs.
  \<^verbatim>\<open>deposit(0.1, 0.2)\<close> returns \<^verbatim>\<open>0.30000000000000004\<close>, which is not the exact sum
  of the two doubles. \<^verbatim>\<open>withdraw(1.0, 9007199254740994.0, 9007199254740992.0)\<close> returns
  \<open>- 2 ^ 53\<close>, although the exact difference, \<open>- (2 ^ 53 + 1)\<close>, is below minus the limit.
  And \<^verbatim>\<open>deposit(1e16, 1.0)\<close> returns the balance it was given.
\<close>

theorem pure_functions_spec_counterexample:
  "round64 (1 / 10) = Finite (3602879701896397 / 36028797018963968)
   \<and> round64 (1 / 5) = Finite (3602879701896397 / 18014398509481984)
   \<and> deposit (Finite (3602879701896397 / 36028797018963968)) (Finite (3602879701896397 / 18014398509481984)) = Inr (Finite (1351079888211149 / 4503599627370496))
   \<and> (3602879701896397 / 36028797018963968 :: rat) + 3602879701896397 / 18014398509481984 \<noteq> 1351079888211149 / 4503599627370496
   \<and> withdraw (Finite 1) (Finite 9007199254740994) (Finite 9007199254740992) =
       Inr (Finite (- 9007199254740992))
   \<and> (1 :: rat) - 9007199254740994 < - 9007199254740992
   \<and> (1 :: rat) - 9007199254740994 \<noteq> - 9007199254740992
   \<and> deposit (Finite 10000000000000000) (Finite 1) = Inr (Finite 10000000000000000)"
  by (simp add: literal_01 literal_02 sum_01_02 sum_1e16_1 difference_1_2p53 deposit_def
                withdraw_def Let_def del: fadd.simps)

text \<open>
  Claim C10. In the method and in the module-level function alike, the test of the
  amount comes before the test of the overdraft: for an amount that is zero or negative,
  \<open>withdraw\<close> fails with the invalid-argument error and not with the overdraft error,
  whatever the balance and the limit are, so also when
  \<open>balance - amount < - overdraft_limit\<close>.
\<close>

theorem withdraw_checks_amount_first:
  assumes "fle amt (Finite 0)"
  shows "raises (fst (BankAccount_withdraw self amt now)) InvalidArgument
       \<and> \<not> raises (fst (BankAccount_withdraw self amt now)) OverdraftExceeded
       \<and> raises (withdraw b amt l) InvalidArgument
       \<and> \<not> raises (withdraw b amt l) OverdraftExceeded"
  using assms
  by (simp add: BankAccount_withdraw_def withdraw_def)

theorem withdraw_checks_amount_first_witness:
  "fle (Finite (- 50)) (Finite 0)
   \<and> flt (fsub (Finite (- 500)) (Finite (- 50))) (fneg (Finite 200))
   \<and> raises (fst (BankAccount_withdraw (\<lparr>balance = Finite (- 500), transaction_history = [], overdraft_limit = Finite 200\<rparr>) (Finite (- 50)) 1)) InvalidArgument
   \<and> \<not> raises (fst (BankAccount_withdraw (\<lparr>balance = Finite (- 500), transaction_history = [], overdraft_limit = Finite 200\<rparr>) (Finite (- 50)) 1)) OverdraftExceeded
   \<and> raises (withdraw (Finite (- 500)) (Finite (- 50)) (Finite 200)) InvalidArgument
   \<and> \<not> raises (withdraw (Finite (- 500)) (Finite (- 50)) (Finite 200)) OverdraftExceeded"
  using withdraw_checks_amount_first
          [of "Finite (- 50)" "\<lparr>balance = Finite (- 500), transaction_history = [], overdraft_limit = Finite 200\<rparr>" 1 "Finite (- 500)" "Finite 200"]
  by (simp add: fsub_def)

end
